theory Spec2Isabelle
  imports Complex_Main "HOL-Library.Product_Lexorder"
begin

section \<open>QueueCTL: the store of \<^verbatim>\<open>queuectl/storage.py\<close>\<close>

text \<open>
  The class \<^verbatim>\<open>Storage\<close> keeps every job in one SQLite table and opens a fresh
  connection for each method call. Each method is embedded as a function from the
  database before the call to the database after it (and the value the method returns).
  A connection that is closed without \<^verbatim>\<open>commit\<close> rolls its pending statements back:
  in the model such a call returns the database it was given.

  A method that reads with a \<^verbatim>\<open>SELECT\<close> and writes afterwards (\<^verbatim>\<open>acquire_job\<close>,
  \<^verbatim>\<open>fail_job\<close>, \<^verbatim>\<open>retry_dlq_job\<close>) reads outside any transaction: the
  \<^verbatim>\<open>sqlite3\<close> module opens the transaction at the \<^verbatim>\<open>UPDATE\<close>, so another
  connection can commit in between. Such a method takes two databases, the one its
  \<^verbatim>\<open>SELECT\<close> reads and the one its \<^verbatim>\<open>UPDATE\<close> finds; they are equal when no other
  connection commits in between.

  Conventions of the embedding:
  \<^item> a table is the list of its rows in insertion order;
  \<^item> an instant (\<^verbatim>\<open>datetime.utcnow()\<close>) is the number of microseconds since
    \<^verbatim>\<open>datetime.min\<close> (0001-01-01T00:00:00). The source stores
    \<^verbatim>\<open>isoformat()\<close> strings and lets SQLite compare them as text; for the four-digit
    years of \<^verbatim>\<open>datetime\<close> that order is the order of the instants;
  \<^item> every reading of the clock is a parameter of the function, one parameter for
    each call of \<^verbatim>\<open>utcnow\<close> in the method;
  \<^item> integer columns are \<open>int\<close>, and a value that Python binds to a statement is
    checked for the 64 bits of SQLite; \<open>attempts\<close> is a natural number (the source only
    ever writes \<open>0\<close> or \<open>attempts + 1\<close> there); the sum \<open>priority + waiting_time\<close> of
    the \<^verbatim>\<open>ORDER BY\<close> is computed as SQLite computes it, in floating point when the
    64-bit sum overflows;
  \<^item> the counters \<open>attempts\<close> and \<open>waiting_time\<close> start at 0, grow by one with a
    call, and are taken to stay within the 64 bits of a column: their increments are
    exact;
  \<^item> \<open>execution_time\<close> is a Python float that is stored and read back unchanged;
    no arithmetic is done on it, and it is a \<open>real\<close> here.
\<close>

subsection \<open>Rows\<close>

datatype job_state = Pending | Processing | Completed | Failed | Dead

type_synonym instant = int

text \<open>
  Modelled from the spec: \<^verbatim>\<open>schema.sql\<close>, which declares the tables, is not among
  the sources. The columns are the attributes of a job in section 3 of the specification
  (they are also the columns the statements of \<^verbatim>\<open>storage.py\<close> name); \<open>id\<close> is the
  primary key; the columns an \<^verbatim>\<open>INSERT\<close> of \<^verbatim>\<open>enqueue_job\<close> does not list
  (\<open>next_retry_at\<close>, \<open>locked_by\<close>, \<open>locked_at\<close>, \<open>output\<close>, \<open>error_message\<close>,
  \<open>execution_time\<close>) are null in a new row.
\<close>

record job =
  job_id :: string
  command :: string
  state :: job_state
  attempts :: nat
  max_retries :: int
  timeout :: int
  backoff_base :: int
  priority :: int
  waiting_time :: int
  next_retry_at :: "instant option"
  locked_by :: "string option"
  locked_at :: "instant option"
  job_output :: "string option"
  error_message :: "string option"
  execution_time :: "real option"
  created_at :: instant
  updated_at :: instant

text \<open>The database: the table \<open>jobs\<close> and the table \<open>config\<close> of (key, value) rows.\<close>

record store =
  jobs :: "job list"
  config :: "(string \<times> string) list"

datatype error = ValueError | OverflowError | IntegrityError

subsection \<open>SQL statements on the table of jobs\<close>

text \<open>\<^verbatim>\<open>UPDATE jobs SET ... WHERE p\<close>: every row that satisfies \<open>p\<close> is rewritten.\<close>

definition update_where :: "(job \<Rightarrow> bool) \<Rightarrow> (job \<Rightarrow> job) \<Rightarrow> job list \<Rightarrow> job list" where
  "update_where p f rows = map (\<lambda>r. if p r then f r else r) rows"

text \<open>\<^verbatim>\<open>cursor.rowcount\<close> after such an \<^verbatim>\<open>UPDATE\<close>: the number of rows that matched.\<close>

definition rowcount :: "(job \<Rightarrow> bool) \<Rightarrow> job list \<Rightarrow> nat" where
  "rowcount p rows = length (filter p rows)"

text \<open>\<^verbatim>\<open>SELECT * FROM jobs WHERE id = ?\<close> followed by \<^verbatim>\<open>fetchone()\<close>.\<close>

definition select_by_id :: "string \<Rightarrow> job list \<Rightarrow> job option" where
  "select_by_id jid rows = find (\<lambda>r. job_id r = jid) rows"

text \<open>
  Modelled from the spec: the primary key of \<^verbatim>\<open>schema.sql\<close> (not among the sources;
  ``\<open>id\<close> is globally unique; inserting an existing \<open>id\<close> fails''). An \<^verbatim>\<open>INSERT\<close> of a
  row whose \<open>id\<close> is in the table raises \<^verbatim>\<open>sqlite3.IntegrityError\<close>.
\<close>

definition insert_job :: "job \<Rightarrow> job list \<Rightarrow> error + job list" where
  "insert_job r rows =
     (if job_id r \<in> set (map job_id rows) then Inl IntegrityError else Inr (rows @ [r]))"

text \<open>The primary key as a property of a table: no two rows share an \<open>id\<close>.\<close>

definition unique_ids :: "store \<Rightarrow> bool" where
  "unique_ids s = distinct (map job_id (jobs s))"

subsection \<open>Python values used by the methods\<close>

text \<open>
  \<^verbatim>\<open>int(text)\<close> on text whose code points are below 256 (the characters of
  \<open>string\<close>): white space around the number is dropped, one sign is allowed, and the
  digits may be separated by single underscores. \<open>None\<close> stands for
  \<^verbatim>\<open>ValueError\<close>. The white space that \<^verbatim>\<open>int\<close> drops is the white space of C
  (tab, line feed, vertical tab, form feed, carriage return, space) and, among the other
  code points below 256, the two that Unicode classes as white space, U+0085 and U+00A0,
  which the interpreter rewrites to a space before it parses; the separators U+001C to
  U+001F are not dropped. A number of more than 4300 digits is refused (the default limit
  of the interpreter).
\<close>

definition py_isspace :: "char \<Rightarrow> bool" where
  "py_isspace c = (c \<in> set [CHR 0x09, CHR 0x0A, CHR 0x0B, CHR 0x0C, CHR 0x0D, CHR 0x20,
                             CHR 0x85, CHR 0xA0])"

definition py_isdigit :: "char \<Rightarrow> bool" where
  "py_isdigit c = (c \<in> set ''0123456789'')"

definition digit_value :: "char \<Rightarrow> nat" where
  "digit_value c = of_char c - of_char CHR ''0''"

fun py_digits :: "nat \<Rightarrow> string \<Rightarrow> nat option" where
  "py_digits acc [] = Some acc"
| "py_digits acc [c] = (if py_isdigit c then Some (10 * acc + digit_value c) else None)"
| "py_digits acc (c # d # cs) =
     (if py_isdigit c then py_digits (10 * acc + digit_value c) (d # cs)
      else if c = CHR ''_'' \<and> py_isdigit d then py_digits (10 * acc + digit_value d) cs
      else None)"

definition py_unsigned :: "string \<Rightarrow> nat option" where
  "py_unsigned cs =
     (case cs of [] \<Rightarrow> None
      | c # rest \<Rightarrow>
          if py_isdigit c \<and> length (filter py_isdigit cs) \<le> 4300
          then py_digits (digit_value c) rest else None)"

definition py_strip :: "string \<Rightarrow> string" where
  "py_strip cs = rev (dropWhile py_isspace (rev (dropWhile py_isspace cs)))"

definition py_int :: "string \<Rightarrow> int option" where
  "py_int cs =
     (case py_strip cs of [] \<Rightarrow> None
      | c # rest \<Rightarrow>
          if c = CHR ''-'' then map_option (\<lambda>n. - int n) (py_unsigned rest)
          else if c = CHR ''+'' then map_option int (py_unsigned rest)
          else map_option int (py_unsigned (c # rest)))"

text \<open>
  \<^verbatim>\<open>datetime.max\<close> is 9999-12-31T23:59:59.999999, the last microsecond of day
  3652059 counted from \<^verbatim>\<open>datetime.min\<close>.
\<close>

definition datetime_max :: instant where
  "datetime_max = 3652059 * 86400 * 1000000 - 1"

text \<open>
  \<^verbatim>\<open>timedelta(seconds=n)\<close> for an integer \<open>n\<close>: the number of days of the result must
  have magnitude at most 999999999, otherwise \<^verbatim>\<open>OverflowError\<close>. The result is in
  microseconds.
\<close>

definition timedelta_seconds :: "int \<Rightarrow> error + int" where
  "timedelta_seconds n =
     (if \<bar>n div 86400\<bar> > 999999999 then Inl OverflowError else Inr (n * 1000000))"

text \<open>\<^verbatim>\<open>datetime + timedelta\<close>: \<^verbatim>\<open>OverflowError\<close> (date value out of range) outside
  the years 1 to 9999.\<close>

definition datetime_add :: "instant \<Rightarrow> int \<Rightarrow> error + instant" where
  "datetime_add t d =
     (if t + d < 0 \<or> datetime_max < t + d then Inl OverflowError else Inr (t + d))"

text \<open>A Python integer bound to a statement parameter must fit SQLite's 64-bit
  integer, otherwise the \<^verbatim>\<open>execute\<close> raises \<^verbatim>\<open>OverflowError\<close>.\<close>

definition fits_int64 :: "int \<Rightarrow> bool" where
  "fits_int64 n = (- (2 ^ 63) \<le> n \<and> n < 2 ^ 63)"

text \<open>
  SQLite adds two integers in 64 bits. When the exact sum does not fit, it converts both
  operands to IEEE doubles (\<^verbatim>\<open>(double)i\<close>, rounding to the nearest double, ties to the
  even significand) and adds the doubles, which rounds once more. The result is a whole
  number; it is given here by its value. \<open>to_double\<close> is the conversion, for an integer
  of any size: a double keeps the 53 leading bits.
\<close>

function bit_length :: "int \<Rightarrow> nat" where
  "bit_length n = (if n \<le> 0 then 0 else Suc (bit_length (n div 2)))"
  by pat_completeness auto
termination
  by (relation "measure nat") auto

declare bit_length.simps [simp del]

definition to_double :: "int \<Rightarrow> int" where
  "to_double n =
     (let m = \<bar>n\<bar>; e = bit_length m in
      if e \<le> 53 then n
      else let u = 2 ^ (e - 53); q = m div u; r = m mod u;
               q' = (if u < 2 * r \<or> (u = 2 * r \<and> odd q) then q + 1 else q)
           in sgn n * (q' * u))"

definition sql_add :: "int \<Rightarrow> int \<Rightarrow> int" where
  "sql_add a b =
     (if fits_int64 (a + b) then a + b else to_double (to_double a + to_double b))"

subsection \<open>\<^verbatim>\<open>enqueue_job\<close>\<close>

text \<open>
  The dictionary \<^verbatim>\<open>job_data\<close>. The command line always supplies \<open>id\<close> and
  \<open>command\<close> (\<^verbatim>\<open>required=True\<close>); a key that is absent is \<open>None\<close> and is filled by
  \<^verbatim>\<open>job_data.get(key, default)\<close>.
\<close>

record job_data =
  jd_id :: string
  jd_command :: string
  jd_max_retries :: "int option"
  jd_timeout :: "int option"
  jd_backoff_base :: "int option"
  jd_priority :: "int option"

text \<open>\<^verbatim>\<open>int(row['value']) if row else default\<close> for the row of \<open>config\<close> with the
  given key.\<close>

definition config_int :: "(string \<times> string) list \<Rightarrow> string \<Rightarrow> int \<Rightarrow> error + int" where
  "config_int cfg key dflt =
     (case map_of cfg key of None \<Rightarrow> Inr dflt
      | Some v \<Rightarrow> (case py_int v of None \<Rightarrow> Inl ValueError | Some n \<Rightarrow> Inr n))"

text \<open>The aging statement: \<^verbatim>\<open>UPDATE jobs SET waiting_time = waiting_time + 1
  WHERE state IN ('pending', 'failed') AND locked_by IS NULL\<close>.\<close>

definition age_waiting :: "job list \<Rightarrow> job list" where
  "age_waiting rows =
     update_where (\<lambda>r. (state r = Pending \<or> state r = Failed) \<and> locked_by r = None)
                  (\<lambda>r. r\<lparr>waiting_time := waiting_time r + 1\<rparr>) rows"

text \<open>The row of the \<^verbatim>\<open>INSERT\<close>.\<close>

definition new_job :: "string \<Rightarrow> string \<Rightarrow> int \<Rightarrow> int \<Rightarrow> int \<Rightarrow> int \<Rightarrow> instant \<Rightarrow> job" where
  "new_job jid cmd mr tmo bb prio now =
     \<lparr>job_id = jid, command = cmd, state = Pending, attempts = 0, max_retries = mr,
      timeout = tmo, backoff_base = bb, priority = prio, waiting_time = 0,
      next_retry_at = None, locked_by = None, locked_at = None, job_output = None,
      error_message = None, execution_time = None, created_at = now, updated_at = now\<rparr>"

text \<open>The body of the \<^verbatim>\<open>try\<close> block, up to \<^verbatim>\<open>commit\<close>.\<close>

definition enqueue_txn :: "instant \<Rightarrow> job_data \<Rightarrow> store \<Rightarrow> error + store" where
  "enqueue_txn now jd s =
     (case config_int (config s) ''max-retries'' 3 of Inl e \<Rightarrow> Inl e
      | Inr default_max_retries \<Rightarrow>
     (case config_int (config s) ''backoff-base'' 2 of Inl e \<Rightarrow> Inl e
      | Inr default_backoff_base \<Rightarrow>
        let aged = age_waiting (jobs s);
            mr = (case jd_max_retries jd of None \<Rightarrow> default_max_retries | Some v \<Rightarrow> v);
            tmo = (case jd_timeout jd of None \<Rightarrow> 20 | Some v \<Rightarrow> v);
            bb = (case jd_backoff_base jd of None \<Rightarrow> default_backoff_base | Some v \<Rightarrow> v);
            prio = (case jd_priority jd of None \<Rightarrow> 5 | Some v \<Rightarrow> v)
        in if \<not> (fits_int64 mr \<and> fits_int64 tmo \<and> fits_int64 bb \<and> fits_int64 prio)
           then Inl OverflowError
           else (case insert_job (new_job (jd_id jd) (jd_command jd) mr tmo bb prio now) aged of
                   Inl e \<Rightarrow> Inl e
                 | Inr rows \<Rightarrow> Inr (s\<lparr>jobs := rows\<rparr>))))"

text \<open>
  \<^verbatim>\<open>except Exception\<close> prints the error and returns \<^verbatim>\<open>False\<close>; the connection is
  closed without \<^verbatim>\<open>commit\<close>, so the aging statement is rolled back with the rest.
\<close>

definition enqueue_job :: "instant \<Rightarrow> job_data \<Rightarrow> store \<Rightarrow> bool \<times> store" where
  "enqueue_job now jd s =
     (case enqueue_txn now jd s of Inl e \<Rightarrow> (False, s) | Inr s' \<Rightarrow> (True, s'))"

subsection \<open>\<^verbatim>\<open>acquire_job\<close>\<close>

text \<open>The \<^verbatim>\<open>WHERE\<close> clause of the selection; a comparison with a null
  \<open>next_retry_at\<close> is not true.\<close>

definition eligible :: "instant \<Rightarrow> job \<Rightarrow> bool" where
  "eligible now r =
     ((state r = Pending \<or>
       (state r = Failed \<and> (case next_retry_at r of None \<Rightarrow> False | Some t \<Rightarrow> t \<le> now)))
      \<and> locked_by r = None)"

text \<open>
  \<^verbatim>\<open>ORDER BY (priority + waiting_time) DESC, created_at ASC LIMIT 1\<close>: the rows are
  sorted by the pair (negated sum, \<open>created_at\<close>), ordered lexicographically, and the
  first one is fetched. The sum is SQLite's. SQL leaves the order of rows with equal keys
  open; the sort here is stable, so the row inserted first is taken.
\<close>

definition order_key :: "job \<Rightarrow> int \<times> int" where
  "order_key r = (- sql_add (priority r) (waiting_time r), created_at r)"

definition select_candidate :: "instant \<Rightarrow> job list \<Rightarrow> job option" where
  "select_candidate now rows =
     (case sort_key order_key (filter (eligible now) rows) of
        [] \<Rightarrow> None
      | r # _ \<Rightarrow> Some r)"

text \<open>The locking \<^verbatim>\<open>UPDATE ... WHERE id = ? AND locked_by IS NULL\<close>, the
  \<^verbatim>\<open>commit\<close>, the test of \<^verbatim>\<open>rowcount\<close> and the final \<^verbatim>\<open>SELECT\<close>, which
  is taken to read the table as the \<^verbatim>\<open>UPDATE\<close> has left it.\<close>

definition lock_job :: "string \<Rightarrow> instant \<Rightarrow> string \<Rightarrow> store \<Rightarrow> job option \<times> store" where
  "lock_job worker_id now jid s =
     (let p = (\<lambda>r. job_id r = jid \<and> locked_by r = None);
          rows = update_where p
                   (\<lambda>r. r\<lparr>state := Processing, locked_by := Some worker_id,
                          locked_at := Some now, updated_at := now\<rparr>) (jobs s)
      in if rowcount p (jobs s) = 0 then (None, s\<lparr>jobs := rows\<rparr>)
         else (select_by_id jid rows, s\<lparr>jobs := rows\<rparr>))"

text \<open>
  \<^verbatim>\<open>acquire_job\<close>. The \<^verbatim>\<open>SELECT\<close> reads the database \<open>s\<close>; when it finds a row,
  the locking \<^verbatim>\<open>UPDATE\<close>, which names that row by its \<open>id\<close> and tests nothing but
  \<open>locked_by\<close>, runs on the database \<open>s2\<close> of that later moment. The call is
  uninterrupted when \<open>s2 = s\<close>.
\<close>

definition acquire_job ::
  "string \<Rightarrow> instant \<Rightarrow> store \<Rightarrow> store \<Rightarrow> job option \<times> store" where
  "acquire_job worker_id now s s2 =
     (case select_candidate now (jobs s) of
        None \<Rightarrow> (None, s)
      | Some r \<Rightarrow> lock_job worker_id now (job_id r) s2)"

subsection \<open>\<^verbatim>\<open>complete_job\<close>, \<^verbatim>\<open>fail_job\<close>\<close>

definition complete_job :: "instant \<Rightarrow> string \<Rightarrow> string \<Rightarrow> real option \<Rightarrow> store \<Rightarrow> store" where
  "complete_job now jid out et s =
     s\<lparr>jobs := update_where (\<lambda>r. job_id r = jid)
                 (\<lambda>r. r\<lparr>state := Completed, job_output := Some out, execution_time := et,
                        locked_by := None, locked_at := None, updated_at := now\<rparr>) (jobs s)\<rparr>"

text \<open>
  \<^verbatim>\<open>fail_job\<close> reads the clock twice: \<open>now\<close> is written to \<open>updated_at\<close>, and the
  retry instant is computed from a second \<^verbatim>\<open>datetime.utcnow()\<close>, here \<open>now2\<close>.
  The row is read from the database \<open>s\<close>; the \<^verbatim>\<open>UPDATE\<close>, which writes the values
  computed from that row, runs on the database \<open>s2\<close> of that later moment (\<open>s2 = s\<close>
  in an uninterrupted call). An \<^verbatim>\<open>OverflowError\<close> of the date arithmetic leaves the
  method before the \<^verbatim>\<open>UPDATE\<close>: nothing is written.
\<close>

definition fail_job ::
  "instant \<Rightarrow> instant \<Rightarrow> string \<Rightarrow> string \<Rightarrow> real option \<Rightarrow> store \<Rightarrow> store \<Rightarrow> error + store"
  where
  "fail_job now now2 jid msg et s s2 =
     (case select_by_id jid (jobs s) of
        None \<Rightarrow> Inr s
      | Some j \<Rightarrow>
          let attempts' = attempts j + 1 in
          if max_retries j \<le> int attempts'
          then Inr (s2\<lparr>jobs := update_where (\<lambda>r. job_id r = jid)
                     (\<lambda>r. r\<lparr>state := Dead, attempts := attempts', error_message := Some msg,
                            execution_time := et, locked_by := None, locked_at := None,
                            next_retry_at := None, updated_at := now\<rparr>) (jobs s2)\<rparr>)
          else (case timedelta_seconds (backoff_base j ^ attempts') of
                  Inl e \<Rightarrow> Inl e
                | Inr delay \<Rightarrow>
                    (case datetime_add now2 delay of
                       Inl e \<Rightarrow> Inl e
                     | Inr next_retry \<Rightarrow>
                         Inr (s2\<lparr>jobs := update_where (\<lambda>r. job_id r = jid)
                           (\<lambda>r. r\<lparr>state := Failed, attempts := attempts',
                                  error_message := Some msg, execution_time := et,
                                  locked_by := None, locked_at := None,
                                  next_retry_at := Some next_retry, updated_at := now\<rparr>)
                           (jobs s2)\<rparr>))))"

subsection \<open>Queries and administration\<close>

definition get_job :: "string \<Rightarrow> store \<Rightarrow> job option" where
  "get_job jid s = select_by_id jid (jobs s)"

text \<open>\<^verbatim>\<open>retry_dlq_job\<close> reads the state from \<open>s\<close> and, for a \<open>dead\<close> job, runs its
  \<^verbatim>\<open>UPDATE\<close> on \<open>s2\<close> (\<open>s2 = s\<close> in an uninterrupted call).\<close>

definition retry_dlq_job :: "instant \<Rightarrow> string \<Rightarrow> store \<Rightarrow> store \<Rightarrow> bool \<times> store" where
  "retry_dlq_job now jid s s2 =
     (case select_by_id jid (jobs s) of
        None \<Rightarrow> (False, s)
      | Some j \<Rightarrow>
          if state j \<noteq> Dead then (False, s)
          else (True, s2\<lparr>jobs := update_where (\<lambda>r. job_id r = jid)
                  (\<lambda>r. r\<lparr>state := Pending, attempts := 0, error_message := None,
                         next_retry_at := None, locked_by := None, locked_at := None,
                         updated_at := now\<rparr>) (jobs s2)\<rparr>))"

definition delete_job :: "string \<Rightarrow> store \<Rightarrow> bool \<times> store" where
  "delete_job jid s =
     (0 < rowcount (\<lambda>r. job_id r = jid) (jobs s),
      s\<lparr>jobs := filter (\<lambda>r. job_id r \<noteq> jid) (jobs s)\<rparr>)"

definition clear_all_jobs :: "store \<Rightarrow> store" where
  "clear_all_jobs s = s\<lparr>jobs := []\<rparr>"

subsection \<open>Sequences of calls\<close>

text \<open>
  A call of one of the methods that change the table of jobs, with its arguments and the
  clock readings it makes, and sequences of such calls in which each call has returned
  before the next one starts: every call is uninterrupted. \<^verbatim>\<open>fail_job\<close> that raises
  leaves the database as it was.
\<close>

datatype op =
    Enqueue instant job_data
  | Acquire string instant
  | Complete instant string string "real option"
  | Fail instant instant string string "real option"
  | DlqRetry instant string
  | Delete string
  | Clear

fun apply_op :: "op \<Rightarrow> store \<Rightarrow> store" where
  "apply_op (Enqueue now jd) s = snd (enqueue_job now jd s)"
| "apply_op (Acquire worker_id now) s = snd (acquire_job worker_id now s s)"
| "apply_op (Complete now jid out et) s = complete_job now jid out et s"
| "apply_op (Fail now now2 jid msg et) s =
     (case fail_job now now2 jid msg et s s of Inl e \<Rightarrow> s | Inr s' \<Rightarrow> s')"
| "apply_op (DlqRetry now jid) s = snd (retry_dlq_job now jid s s)"
| "apply_op (Delete jid) s = snd (delete_job jid s)"
| "apply_op Clear s = clear_all_jobs s"

fun run :: "op list \<Rightarrow> store \<Rightarrow> store" where
  "run [] s = s"
| "run (c # cs) s = run cs (apply_op c s)"

text \<open>
  A sequence of calls in which \<^verbatim>\<open>fail_job\<close> is never called for a job that is
  \<open>completed\<close> or \<open>dead\<close> at that moment (a worker calls it only for the job it has
  just acquired and run).
\<close>

definition fail_allowed :: "op \<Rightarrow> store \<Rightarrow> bool" where
  "fail_allowed c s =
     (case c of
        Fail now now2 jid msg et \<Rightarrow>
          (case get_job jid s of
             None \<Rightarrow> True
           | Some j \<Rightarrow> state j \<noteq> Completed \<and> state j \<noteq> Dead)
      | _ \<Rightarrow> True)"

fun fails_only_live :: "op list \<Rightarrow> store \<Rightarrow> bool" where
  "fails_only_live [] s = True"
| "fails_only_live (c # cs) s = (fail_allowed c s \<and> fails_only_live cs (apply_op c s))"

text \<open>
  The retry budget of a row: when \<open>max_retries\<close> is at least 1, \<open>attempts\<close> does not
  exceed it, and stays below it while the job is neither \<open>completed\<close> nor \<open>dead\<close>.
  \<open>store_ok\<close> says that the table has a primary key and every row is within its budget.
\<close>

definition budget_ok :: "job \<Rightarrow> bool" where
  "budget_ok j =
     (1 \<le> max_retries j \<longrightarrow>
        int (attempts j) \<le> max_retries j \<and>
        (state j \<noteq> Completed \<and> state j \<noteq> Dead \<longrightarrow> int (attempts j) < max_retries j))"

definition store_ok :: "store \<Rightarrow> bool" where
  "store_ok s = (unique_ids s \<and> list_all budget_ok (jobs s))"

subsection \<open>Example data\<close>

definition request_a :: job_data where
  "request_a = \<lparr>jd_id = ''a'', jd_command = ''echo a'', jd_max_retries = Some 3,
                 jd_timeout = None, jd_backoff_base = None, jd_priority = Some 1\<rparr>"

definition request_b :: job_data where
  "request_b = \<lparr>jd_id = ''b'', jd_command = ''echo b'', jd_max_retries = None,
                 jd_timeout = None, jd_backoff_base = None, jd_priority = Some 10\<rparr>"

definition empty_store :: store where
  "empty_store = \<lparr>jobs = [], config = []\<rparr>"

definition store_a :: store where
  "store_a = snd (enqueue_job 1000 request_a empty_store)"

definition store_ab :: store where
  "store_ab = snd (enqueue_job 2000 request_b store_a)"

definition job_a_aged :: job where
  "job_a_aged = (new_job ''a'' ''echo a'' 3 20 2 1 1000)\<lparr>waiting_time := 1\<rparr>"

definition job_b_locked :: job where
  "job_b_locked = (new_job ''b'' ''echo b'' 3 20 2 10 2000)
     \<lparr>state := Processing, locked_by := Some ''w1'', locked_at := Some 3000,
      updated_at := 3000\<rparr>"

definition job_a_locked :: job where
  "job_a_locked = job_a_aged
     \<lparr>state := Processing, locked_by := Some ''w2'', locked_at := Some 4000,
      updated_at := 4000\<rparr>"

definition store_b_locked :: store where
  "store_b_locked = \<lparr>jobs = [job_a_aged, job_b_locked], config = []\<rparr>"

definition store_ab_locked :: store where
  "store_ab_locked = \<lparr>jobs = [job_a_locked, job_b_locked], config = []\<rparr>"

definition job_b_failed :: job where
  "job_b_failed = job_b_locked
     \<lparr>state := Failed, attempts := 1, error_message := Some ''Exit code 1'',
      execution_time := Some 1, locked_by := None, locked_at := None,
      next_retry_at := Some 7000001, updated_at := 5000000\<rparr>"

definition store_b_failed :: store where
  "store_b_failed = \<lparr>jobs = [job_a_aged, job_b_failed], config = []\<rparr>"

text \<open>A job submitted with \<^verbatim>\<open>--backoff-base 1000000000000\<close>, acquired by a worker.\<close>

definition request_c :: job_data where
  "request_c = \<lparr>jd_id = ''c'', jd_command = ''exit 1'', jd_max_retries = None,
                 jd_timeout = None, jd_backoff_base = Some 1000000000000, jd_priority = None\<rparr>"

definition job_c_locked :: job where
  "job_c_locked = (new_job ''c'' ''exit 1'' 3 20 1000000000000 5 1000)
     \<lparr>state := Processing, locked_by := Some ''w1'', locked_at := Some 2000,
      updated_at := 2000\<rparr>"

definition store_c_locked :: store where
  "store_c_locked = run [Enqueue 1000 request_c, Acquire ''w1'' 2000] empty_store"

text \<open>A job with \<^verbatim>\<open>--max-retries 1\<close> that waited during one further enqueue, was
  acquired, and failed once.\<close>

definition request_d :: job_data where
  "request_d = \<lparr>jd_id = ''d'', jd_command = ''exit 1'', jd_max_retries = Some 1,
                 jd_timeout = None, jd_backoff_base = None, jd_priority = None\<rparr>"

definition store_d_pending :: store where
  "store_d_pending = run [Enqueue 1000 request_d, Enqueue 1500 request_a] empty_store"

definition job_d_locked :: job where
  "job_d_locked = (new_job ''d'' ''exit 1'' 1 20 2 5 1000)
     \<lparr>state := Processing, waiting_time := 1, locked_by := Some ''w1'',
      locked_at := Some 2000, updated_at := 2000\<rparr>"

definition store_d_locked :: store where
  "store_d_locked =
     run [Enqueue 1000 request_d, Enqueue 1500 request_a, Acquire ''w1'' 2000] empty_store"

definition job_d_dead :: job where
  "job_d_dead = (new_job ''d'' ''exit 1'' 1 20 2 5 1000)
     \<lparr>state := Dead, attempts := 1, waiting_time := 1, error_message := Some ''Exit code 1'',
      execution_time := Some 1, updated_at := 3000\<rparr>"

definition store_d_dead :: store where
  "store_d_dead =
     run [Enqueue 1000 request_d, Enqueue 1500 request_a, Acquire ''w1'' 2000,
          Fail 3000 3001 ''d'' ''Exit code 1'' (Some 1)] empty_store"

definition job_d_retried :: job where
  "job_d_retried = job_d_dead\<lparr>state := Pending, attempts := 0, error_message := None,
                              updated_at := 4000\<rparr>"

text \<open>Job \<open>b\<close> completed by the worker that holds it, and the same row locked again.\<close>

definition job_b_done :: job where
  "job_b_done = job_b_locked
     \<lparr>state := Completed, job_output := Some ''ok'', execution_time := Some 1,
      locked_by := None, locked_at := None, updated_at := 3500\<rparr>"

definition store_b_done :: store where
  "store_b_done = \<lparr>jobs = [job_a_aged, job_b_done], config = []\<rparr>"

definition job_b_again :: job where
  "job_b_again = job_b_done
     \<lparr>state := Processing, locked_by := Some ''w2'', locked_at := Some 2900,
      updated_at := 2900\<rparr>"

definition store_b_again :: store where
  "store_b_again = \<lparr>jobs = [job_a_aged, job_b_again], config = []\<rparr>"

text \<open>Two jobs submitted with \<^verbatim>\<open>--priority 9223372036854775805\<close> and
  \<^verbatim>\<open>--priority 9223372036854775807\<close>, followed by two more submissions.\<close>

definition request_p :: job_data where
  "request_p = \<lparr>jd_id = ''p'', jd_command = ''echo p'', jd_max_retries = None,
                 jd_timeout = None, jd_backoff_base = None,
                 jd_priority = Some 9223372036854775805\<rparr>"

definition request_q :: job_data where
  "request_q = \<lparr>jd_id = ''q'', jd_command = ''echo q'', jd_max_retries = None,
                 jd_timeout = None, jd_backoff_base = None,
                 jd_priority = Some 9223372036854775807\<rparr>"

definition job_p :: job where
  "job_p = (new_job ''p'' ''echo p'' 3 20 2 9223372036854775805 1000)\<lparr>waiting_time := 3\<rparr>"

definition job_q :: job where
  "job_q = (new_job ''q'' ''echo q'' 3 20 2 9223372036854775807 2000)\<lparr>waiting_time := 2\<rparr>"

definition store_pq :: store where
  "store_pq =
     run [Enqueue 1000 request_p, Enqueue 2000 request_q, Enqueue 3000 request_a,
          Enqueue 4000 request_b] empty_store"

definition job_p_locked :: job where
  "job_p_locked = job_p
     \<lparr>state := Processing, locked_by := Some ''w1'', locked_at := Some 5000,
      updated_at := 5000\<rparr>"

text \<open>A job submitted with \<^verbatim>\<open>--max-retries 0\<close>, acquired, and failed once.\<close>

definition request_z :: job_data where
  "request_z = \<lparr>jd_id = ''z'', jd_command = ''exit 1'', jd_max_retries = Some 0,
                 jd_timeout = None, jd_backoff_base = None, jd_priority = None\<rparr>"

definition job_z_dead :: job where
  "job_z_dead = (new_job ''z'' ''exit 1'' 0 20 2 5 1000)
     \<lparr>state := Dead, attempts := 1, error_message := Some ''Exit code 1'',
      execution_time := Some 1, updated_at := 3000\<rparr>"

definition store_z_dead :: store where
  "store_z_dead =
     run [Enqueue 1000 request_z, Acquire ''w1'' 2000,
          Fail 3000 3001 ''z'' ''Exit code 1'' (Some 1)] empty_store"

section \<open>Properties\<close>

subsection \<open>Statements on the table\<close>

lemma job_id_update_where:
  "(\<And>r. job_id (f r) = job_id r) \<Longrightarrow> map job_id (update_where p f rows) = map job_id rows"
  by (simp add: update_where_def)

lemma length_update_where: "length (update_where p f rows) = length rows"
  by (simp add: update_where_def)

lemma nth_update_where:
  "n < length rows \<Longrightarrow>
   update_where p f rows ! n = (if p (rows ! n) then f (rows ! n) else rows ! n)"
  by (simp add: update_where_def)

lemma job_id_age_waiting: "map job_id (age_waiting rows) = map job_id rows"
  by (simp add: age_waiting_def job_id_update_where)

lemma select_by_id_Some_mem:
  "select_by_id jid rows = Some j \<Longrightarrow> j \<in> set rows \<and> job_id j = jid"
  by (auto simp: select_by_id_def find_Some_iff)

lemma select_by_id_None_iff:
  "select_by_id jid rows = None \<longleftrightarrow> jid \<notin> set (map job_id rows)"
  by (auto simp: select_by_id_def find_None_iff)

lemma select_by_id_update_same:
  assumes "select_by_id jid rows = Some j" and "\<And>r. job_id (f r) = job_id r"
    and "\<And>r. job_id r = jid \<Longrightarrow> p r"
  shows "select_by_id jid (update_where p f rows) = Some (f j)"
  using assms(1)
proof (induction rows)
  case Nil
  then show ?case by (simp add: select_by_id_def)
next
  case (Cons r rows)
  then show ?case
    using assms(2,3) by (auto simp: select_by_id_def update_where_def)
qed

lemma select_by_id_update_other:
  assumes "\<And>r. job_id (f r) = job_id r" and "\<And>r. p r \<Longrightarrow> job_id r \<noteq> i"
  shows "select_by_id i (update_where p f rows) = select_by_id i rows"
proof (induction rows)
  case Nil
  then show ?case by (simp add: select_by_id_def update_where_def)
next
  case (Cons r rows)
  then show ?case
    using assms by (auto simp: select_by_id_def update_where_def)
qed

lemma select_by_id_unique:
  "distinct (map job_id rows) \<Longrightarrow> r \<in> set rows \<Longrightarrow> select_by_id (job_id r) rows = Some r"
  by (induction rows) (auto simp: select_by_id_def)

lemma job_id_new_job: "job_id (new_job jid cmd mr tmo bb prio now) = jid"
  by (simp add: new_job_def)

lemma enqueue_job_True:
  assumes "enqueue_job now jd s = (True, s')"
  shows "\<exists>mr tmo bb prio.
           jd_id jd \<notin> set (map job_id (jobs s)) \<and>
           s' = s\<lparr>jobs := age_waiting (jobs s) @ [new_job (jd_id jd) (jd_command jd) mr tmo bb prio now]\<rparr>"
  using assms
  by (auto simp: enqueue_job_def enqueue_txn_def insert_job_def Let_def job_id_age_waiting job_id_new_job
      simp del: set_map split: sum.splits if_splits)

lemma select_by_id_update_unique:
  assumes "distinct (map job_id rows)" and "r \<in> set rows" and "\<And>x. job_id (f x) = job_id x"
  shows "select_by_id (job_id r) (update_where p f rows) = Some (if p r then f r else r)"
proof -
  let ?g = "\<lambda>x. if p x then f x else x"
  have ids: "map job_id (map ?g rows) = map job_id rows"
    using assms(3) by simp
  have "distinct (map job_id (map ?g rows))"
    using assms(1) by (simp only: ids)
  moreover have "?g r \<in> set (map ?g rows)"
    using assms(2) by simp
  ultimately have "select_by_id (job_id (?g r)) (map ?g rows) = Some (?g r)"
    by (rule select_by_id_unique)
  moreover have "job_id (?g r) = job_id r"
    using assms(3) by simp
  ultimately show ?thesis
    by (simp add: update_where_def)
qed

lemma unique_row:
  "distinct (map job_id rows) \<Longrightarrow> r \<in> set rows \<Longrightarrow> k \<in> set rows \<Longrightarrow> job_id k = job_id r \<Longrightarrow> k = r"
  by (meson distinct_map inj_onD)

lemma rowcount_pos: "r \<in> set rows \<Longrightarrow> p r \<Longrightarrow> rowcount p rows \<noteq> 0"
  by (auto simp: rowcount_def filter_empty_conv)

lemma rowcount_zero: "rowcount p rows = 0 \<longleftrightarrow> (\<forall>r \<in> set rows. \<not> p r)"
  by (auto simp: rowcount_def filter_empty_conv)

lemma update_where_none: "\<forall>r \<in> set rows. \<not> p r \<Longrightarrow> update_where p f rows = rows"
  by (simp add: update_where_def map_idI)

lemma select_candidate_Some:
  assumes "select_candidate now rows = Some r"
  shows "r \<in> set rows \<and> eligible now r \<and>
         (\<forall>k \<in> set rows. eligible now k \<longrightarrow> order_key r \<le> order_key k)"
proof -
  let ?xs = "filter (eligible now) rows"
  from assms obtain rest where srt: "sort_key order_key ?xs = r # rest"
    by (auto simp: select_candidate_def split: list.splits)
  have "set (sort_key order_key ?xs) = set ?xs"
    by simp
  with srt have mem: "r \<in> set ?xs" and sub: "set ?xs = insert r (set rest)"
    by auto
  have "sorted (map order_key (sort_key order_key ?xs))"
    by (rule sorted_sort_key)
  with srt have "\<forall>k \<in> set rest. order_key r \<le> order_key k"
    by simp
  with sub have "\<forall>k \<in> set ?xs. order_key r \<le> order_key k"
    by auto
  with mem show ?thesis
    by auto
qed

lemma select_candidate_None:
  "select_candidate now rows = None \<longleftrightarrow> (\<forall>k \<in> set rows. \<not> eligible now k)"
proof -
  let ?xs = "filter (eligible now) rows"
  have "sort_key order_key ?xs = [] \<longleftrightarrow> ?xs = []"
    by (metis length_sort length_0_conv)
  then show ?thesis
    by (auto simp: select_candidate_def filter_empty_conv split: list.splits)
qed

lemma sql_add_exact: "fits_int64 (a + b) \<Longrightarrow> sql_add a b = a + b"
  by (simp add: sql_add_def)

lemma order_key_le:
  assumes "fits_int64 (priority r + waiting_time r)" and "fits_int64 (priority k + waiting_time k)"
  shows "order_key r \<le> order_key k \<longleftrightarrow>
     priority k + waiting_time k < priority r + waiting_time r \<or>
     (priority k + waiting_time k = priority r + waiting_time r \<and> created_at r \<le> created_at k)"
  using assms by (auto simp: order_key_def less_eq_prod_def sql_add_exact)

lemma lock_job_free:
  assumes "unique_ids s" and "r \<in> set (jobs s)" and "locked_by r = None"
  shows "lock_job w now (job_id r) s =
           (Some (r\<lparr>state := Processing, locked_by := Some w, locked_at := Some now,
                    updated_at := now\<rparr>),
            s\<lparr>jobs := update_where (\<lambda>x. job_id x = job_id r \<and> locked_by x = None)
                 (\<lambda>x. x\<lparr>state := Processing, locked_by := Some w, locked_at := Some now,
                        updated_at := now\<rparr>) (jobs s)\<rparr>)"
proof -
  let ?p = "\<lambda>x. job_id x = job_id r \<and> locked_by x = None"
  let ?f = "\<lambda>x. x\<lparr>state := Processing, locked_by := Some w, locked_at := Some now,
                   updated_at := now\<rparr>"
  have "rowcount ?p (jobs s) \<noteq> 0"
    using assms(2,3) by (intro rowcount_pos [of r]) auto
  moreover have "select_by_id (job_id r) (update_where ?p ?f (jobs s)) = Some (?f r)"
    using select_by_id_update_unique [of "jobs s" r ?f ?p] assms
    by (simp add: unique_ids_def)
  ultimately show ?thesis
    by (simp add: lock_job_def Let_def)
qed

lemma lock_job_locked:
  assumes "unique_ids s" and "r \<in> set (jobs s)" and "locked_by r \<noteq> None"
  shows "lock_job w now (job_id r) s = (None, s)"
proof -
  let ?p = "\<lambda>x. job_id x = job_id r \<and> locked_by x = None"
  have none: "\<forall>x \<in> set (jobs s). \<not> ?p x"
    using assms unique_row [of "jobs s" r] by (auto simp: unique_ids_def)
  then have "rowcount ?p (jobs s) = 0"
    by (simp add: rowcount_zero)
  then show ?thesis
    using update_where_none [OF none] by (simp add: lock_job_def Let_def)
qed

lemma acquire_job_Some:
  assumes "unique_ids s" and "acquire_job w now s s = (Some j, s')"
  shows "\<exists>r \<in> set (jobs s). eligible now r \<and>
           (\<forall>k \<in> set (jobs s). eligible now k \<longrightarrow> order_key r \<le> order_key k) \<and>
           j = r\<lparr>state := Processing, locked_by := Some w, locked_at := Some now,
                 updated_at := now\<rparr> \<and>
           s' = s\<lparr>jobs := update_where (\<lambda>x. job_id x = job_id r \<and> locked_by x = None)
                 (\<lambda>x. x\<lparr>state := Processing, locked_by := Some w, locked_at := Some now,
                        updated_at := now\<rparr>) (jobs s)\<rparr>"
proof -
  from assms(2) obtain r where sel: "select_candidate now (jobs s) = Some r"
    and lk: "lock_job w now (job_id r) s = (Some j, s')"
    by (auto simp: acquire_job_def split: option.splits)
  from select_candidate_Some [OF sel] have r: "r \<in> set (jobs s)" "eligible now r"
    and best: "\<forall>k \<in> set (jobs s). eligible now k \<longrightarrow> order_key r \<le> order_key k"
    by auto
  from r(2) have "locked_by r = None"
    by (simp add: eligible_def)
  from lock_job_free [OF assms(1) r(1) this, of w now] lk r best show ?thesis
    by auto
qed

lemma acquire_job_None:
  assumes "unique_ids s" and "acquire_job w now s s = (None, s')"
  shows "s' = s \<and> (\<forall>k \<in> set (jobs s). \<not> eligible now k)"
proof (cases "select_candidate now (jobs s)")
  case None
  with assms(2) show ?thesis
    by (simp add: acquire_job_def select_candidate_None)
next
  case (Some r)
  from select_candidate_Some [OF Some] have r: "r \<in> set (jobs s)" "eligible now r"
    by auto
  then have "locked_by r = None"
    by (simp add: eligible_def)
  from lock_job_free [OF assms(1) r(1) this, of w now] Some assms(2) show ?thesis
    by (simp add: acquire_job_def)
qed


lemma acquire_job_unique_ids:
  assumes "unique_ids s" and "acquire_job w now s s = (res, s')"
  shows "unique_ids s'"
proof (cases res)
  case None
  with assms acquire_job_None show ?thesis by blast
next
  case (Some j)
  with acquire_job_Some [OF assms(1), of w now j s'] assms show ?thesis
    by (auto simp: unique_ids_def job_id_update_where)
qed

lemma acquire_job_row:
  assumes "unique_ids s" and "acquire_job w now s s = (Some j, s')"
  shows "\<exists>r. get_job (job_id j) s = Some r \<and> locked_by r = None \<and>
             j = r\<lparr>state := Processing, locked_by := Some w, locked_at := Some now,
                   updated_at := now\<rparr> \<and>
             get_job (job_id j) s' = Some j"
proof -
  let ?f = "\<lambda>x. x\<lparr>state := Processing, locked_by := Some w, locked_at := Some now,
                   updated_at := now\<rparr>"
  from acquire_job_Some [OF assms] obtain r where r: "r \<in> set (jobs s)" "eligible now r"
    and j: "j = ?f r"
    and s': "s' = s\<lparr>jobs := update_where (\<lambda>x. job_id x = job_id r \<and> locked_by x = None) ?f (jobs s)\<rparr>"
    by blast
  have free: "locked_by r = None"
    using r(2) by (simp add: eligible_def)
  have d: "distinct (map job_id (jobs s))"
    using assms(1) by (simp add: unique_ids_def)
  have "get_job (job_id r) s = Some r"
    using select_by_id_unique [OF d r(1)] by (simp add: get_job_def)
  moreover have "get_job (job_id r) s' = Some (?f r)"
    using select_by_id_update_unique [OF d r(1), of ?f "\<lambda>x. job_id x = job_id r \<and> locked_by x = None"] free
    by (simp add: get_job_def s')
  moreover have "job_id j = job_id r"
    by (simp add: j)
  ultimately show ?thesis
    using free j by simp
qed

subsection \<open>The example data, evaluated\<close>

lemma store_a_eq: "store_a = \<lparr>jobs = [new_job ''a'' ''echo a'' 3 20 2 1 1000], config = []\<rparr>"
  by code_simp

lemma store_ab_eq:
  "store_ab = \<lparr>jobs = [job_a_aged, new_job ''b'' ''echo b'' 3 20 2 10 2000], config = []\<rparr>"
  by code_simp

lemma acquire_store_ab:
  "acquire_job ''w1'' 3000 store_ab store_ab = (Some job_b_locked, store_b_locked)"
  by code_simp

lemma acquire_store_b_locked:
  "acquire_job ''w2'' 4000 store_b_locked store_b_locked = (Some job_a_locked, store_ab_locked)"
  by code_simp

lemma unique_ids_store_ab: "unique_ids store_ab"
  by code_simp

subsection \<open>\<^verbatim>\<open>acquire_job\<close>\<close>

lemma acquire_job_locked_row:
  assumes "unique_ids s2" and "select_candidate now (jobs s) = Some r"
    and "k \<in> set (jobs s2)" and "job_id k = job_id r" and "locked_by k \<noteq> None"
  shows "acquire_job w now s s2 = (None, s2)"
  using lock_job_locked [OF assms(1,3,5), of w now] assms(2,4)
  by (simp add: acquire_job_def)

text \<open>
  C1. Two calls of \<^verbatim>\<open>acquire_job\<close> that return the same job. The \<^verbatim>\<open>SELECT\<close> of
  worker \<open>w2\<close> reads the table with the two pending jobs \<open>a\<close> and \<open>b\<close> and finds
  \<open>b\<close>. Before its \<^verbatim>\<open>UPDATE\<close> runs, worker \<open>w1\<close> acquires \<open>b\<close> and completes it,
  which clears the lock. The \<^verbatim>\<open>UPDATE\<close> of \<open>w2\<close> tests \<open>locked_by\<close> only: it finds
  \<open>b\<close> unlocked, sets the completed job back to \<open>processing\<close> and returns it. Job
  \<open>b\<close> has been handed to both workers.
\<close>

theorem acquire_job_returns_job_twice:
  "acquire_job ''w1'' 3000 store_ab store_ab = (Some job_b_locked, store_b_locked) \<and>
   complete_job 3500 ''b'' ''ok'' (Some 1) store_b_locked = store_b_done \<and>
   acquire_job ''w2'' 2900 store_ab store_b_done = (Some job_b_again, store_b_again) \<and>
   job_id job_b_again = job_id job_b_locked \<and>
   state job_b_done = Completed \<and> state job_b_again = Processing \<and>
   locked_by job_b_again = Some ''w2''"
  by code_simp

text \<open>
  C2. For an uninterrupted \<^verbatim>\<open>acquire_job\<close> on a table with a primary key in which
  every sum \<open>priority + waiting_time\<close> fits in 64 bits: the call returns nothing, and
  changes nothing, exactly when no row is eligible (unlocked, and \<open>pending\<close> or
  \<open>failed\<close> with \<open>next_retry_at \<le> now\<close>). Otherwise the job it returns is an
  eligible row \<open>r\<close> such that every eligible row has a smaller
  \<open>priority + waiting_time\<close>, or the same sum and a \<open>created_at\<close> that is not earlier;
  every row other than \<open>r\<close> is left as it was, in particular every row that is
  \<open>processing\<close>, \<open>completed\<close> or \<open>dead\<close>.
\<close>

theorem acquire_job_selects_best:
  assumes "unique_ids s"
    and "\<forall>k \<in> set (jobs s). fits_int64 (priority k + waiting_time k)"
    and "acquire_job w now s s = (res, s')"
  shows "(res = None \<longrightarrow>
            s' = s \<and>
            (\<forall>k \<in> set (jobs s).
               \<not> (locked_by k = None \<and>
                  (state k = Pending \<or>
                   (state k = Failed \<and> (\<exists>t. next_retry_at k = Some t \<and> t \<le> now)))))) \<and>
         (\<forall>j. res = Some j \<longrightarrow>
            (\<exists>r \<in> set (jobs s).
               job_id j = job_id r \<and> locked_by r = None \<and>
               (state r = Pending \<or>
                (state r = Failed \<and> (\<exists>t. next_retry_at r = Some t \<and> t \<le> now))) \<and>
               (\<forall>k \<in> set (jobs s).
                  locked_by k = None \<and>
                  (state k = Pending \<or>
                   (state k = Failed \<and> (\<exists>t. next_retry_at k = Some t \<and> t \<le> now))) \<longrightarrow>
                  priority k + waiting_time k < priority r + waiting_time r \<or>
                  (priority k + waiting_time k = priority r + waiting_time r \<and>
                   created_at r \<le> created_at k)) \<and>
               (\<forall>n < length (jobs s). jobs s ! n \<noteq> r \<longrightarrow> jobs s' ! n = jobs s ! n))) \<and>
         length (jobs s') = length (jobs s) \<and>
         (\<forall>n < length (jobs s).
            state (jobs s ! n) = Processing \<or> state (jobs s ! n) = Completed \<or>
            state (jobs s ! n) = Dead \<longrightarrow> jobs s' ! n = jobs s ! n)"
    (is "?none \<and> ?some \<and> ?len \<and> ?stable")
proof -
  have elig: "eligible now k \<longleftrightarrow>
      locked_by k = None \<and>
      (state k = Pending \<or> (state k = Failed \<and> (\<exists>t. next_retry_at k = Some t \<and> t \<le> now)))"
    for k
    by (auto simp: eligible_def split: option.splits)
  show ?thesis
  proof (cases res)
    case None
    with acquire_job_None [OF assms(1), of w now s'] assms(3)
    have "s' = s" and "\<forall>k \<in> set (jobs s). \<not> eligible now k"
      by auto
    with None show ?thesis
      by (simp add: elig)
  next
    case (Some j)
    let ?f = "\<lambda>x. x\<lparr>state := Processing, locked_by := Some w, locked_at := Some now,
                     updated_at := now\<rparr>"
    from acquire_job_Some [OF assms(1), of w now j s'] assms(3) Some
    obtain r where r: "r \<in> set (jobs s)" "eligible now r"
      and best: "\<forall>k \<in> set (jobs s). eligible now k \<longrightarrow> order_key r \<le> order_key k"
      and j: "j = ?f r"
      and s': "s' = s\<lparr>jobs := update_where (\<lambda>x. job_id x = job_id r \<and> locked_by x = None) ?f (jobs s)\<rparr>"
      by blast
    have d: "distinct (map job_id (jobs s))"
      using assms(1) by (simp add: unique_ids_def)
    have len: ?len
      by (simp add: s' length_update_where)
    have frame: "jobs s' ! n = jobs s ! n" if "n < length (jobs s)" "jobs s ! n \<noteq> r" for n
    proof -
      have "jobs s ! n \<in> set (jobs s)"
        using that(1) by simp
      with unique_row [OF d r(1)] that(2) have "job_id (jobs s ! n) \<noteq> job_id r"
        by blast
      then show ?thesis
        using that(1) by (simp add: s' nth_update_where)
    qed
    have rE: "locked_by r = None"
      "state r = Pending \<or> (state r = Failed \<and> (\<exists>t. next_retry_at r = Some t \<and> t \<le> now))"
      using r(2) by (simp_all add: elig)
    have stable: ?stable
    proof (intro allI impI)
      fix n
      assume n: "n < length (jobs s)"
        and st: "state (jobs s ! n) = Processing \<or> state (jobs s ! n) = Completed \<or>
                 state (jobs s ! n) = Dead"
      have "jobs s ! n \<noteq> r"
        using st rE(2) by auto
      then show "jobs s' ! n = jobs s ! n"
        using frame [OF n] by simp
    qed
    have jid: "job_id j = job_id r"
      by (simp add: j)
    have bestE: "priority k + waiting_time k < priority r + waiting_time r \<or>
                 (priority k + waiting_time k = priority r + waiting_time r \<and>
                  created_at r \<le> created_at k)"
      if "k \<in> set (jobs s)" "locked_by k = None"
        "state k = Pending \<or> (state k = Failed \<and> (\<exists>t. next_retry_at k = Some t \<and> t \<le> now))"
      for k
    proof -
      have "eligible now k"
        using that(2,3) by (simp add: elig)
      with best that(1) have "order_key r \<le> order_key k"
        by blast
      moreover have "fits_int64 (priority r + waiting_time r)"
        "fits_int64 (priority k + waiting_time k)"
        using assms(2) r(1) that(1) by blast+
      ultimately show ?thesis
        by (simp only: order_key_le)
    qed
    have none: ?none
      using Some by simp
    have some: ?some
    proof (intro allI impI)
      fix j'
      assume "res = Some j'"
      with Some have j': "j' = j"
        by simp
      show "\<exists>r \<in> set (jobs s).
               job_id j' = job_id r \<and> locked_by r = None \<and>
               (state r = Pending \<or>
                (state r = Failed \<and> (\<exists>t. next_retry_at r = Some t \<and> t \<le> now))) \<and>
               (\<forall>k \<in> set (jobs s).
                  locked_by k = None \<and>
                  (state k = Pending \<or>
                   (state k = Failed \<and> (\<exists>t. next_retry_at k = Some t \<and> t \<le> now))) \<longrightarrow>
                  priority k + waiting_time k < priority r + waiting_time r \<or>
                  (priority k + waiting_time k = priority r + waiting_time r \<and>
                   created_at r \<le> created_at k)) \<and>
               (\<forall>n < length (jobs s). jobs s ! n \<noteq> r \<longrightarrow> jobs s' ! n = jobs s ! n)"
      proof (intro bexI [of _ r] conjI ballI allI impI)
        show "job_id j' = job_id r"
          by (simp add: j' jid)
        show "locked_by r = None"
          by (rule rE(1))
        show "state r = Pending \<or>
              (state r = Failed \<and> (\<exists>t. next_retry_at r = Some t \<and> t \<le> now))"
          by (rule rE(2))
        show "r \<in> set (jobs s)"
          by (rule r(1))
      next
        fix k
        assume "k \<in> set (jobs s)"
          and "locked_by k = None \<and>
               (state k = Pending \<or>
                (state k = Failed \<and> (\<exists>t. next_retry_at k = Some t \<and> t \<le> now)))"
        then show "priority k + waiting_time k < priority r + waiting_time r \<or>
                 (priority k + waiting_time k = priority r + waiting_time r \<and>
                  created_at r \<le> created_at k)"
          using bestE [of k] by blast
      next
        fix n
        assume "n < length (jobs s)" and "jobs s ! n \<noteq> r"
        then show "jobs s' ! n = jobs s ! n"
          by (rule frame)
      qed
    qed
    from none some len stable show ?thesis
      by (intro conjI)
  qed
qed

lemma sums_fit_store_ab: "\<forall>k \<in> set (jobs store_ab). fits_int64 (priority k + waiting_time k)"
  by code_simp

theorem acquire_job_selects_best_witness:
  "unique_ids store_ab \<and>
   fits_int64 (priority job_a_aged + waiting_time job_a_aged) \<and>
   fits_int64 (priority job_b_locked + waiting_time job_b_locked) \<and>
   acquire_job ''w1'' 3000 store_ab store_ab = (Some job_b_locked, store_b_locked) \<and>
   length (jobs store_b_locked) = length (jobs store_ab)"
proof -
  have fit: "fits_int64 (priority job_a_aged + waiting_time job_a_aged)"
    "fits_int64 (priority job_b_locked + waiting_time job_b_locked)"
    by code_simp+
  from acquire_job_selects_best [OF unique_ids_store_ab sums_fit_store_ab acquire_store_ab]
    unique_ids_store_ab fit acquire_store_ab
  show ?thesis
    by blast
qed

text \<open>
  Where the statement of the specification does not hold. With priorities next to \<open>2 ^ 63\<close> the sums of \<open>p\<close> and \<open>q\<close>
  overflow, SQLite rounds both to \<open>2 ^ 63\<close>, and the older job \<open>p\<close> is returned
  although the sum of \<open>q\<close> is larger. And an \<^verbatim>\<open>UPDATE\<close> that runs after another
  worker has acquired and completed the selected job changes a \<open>completed\<close> row.
\<close>

theorem acquire_job_not_best:
  "fst (acquire_job ''w1'' 5000 store_pq store_pq) = Some job_p_locked \<and>
   job_id job_p_locked = ''p'' \<and>
   job_p \<in> set (jobs store_pq) \<and> job_q \<in> set (jobs store_pq) \<and>
   state job_q = Pending \<and> locked_by job_q = None \<and>
   priority job_p + waiting_time job_p < priority job_q + waiting_time job_q \<and>
   state (jobs store_b_done ! 1) = Completed \<and>
   snd (acquire_job ''w2'' 2900 store_ab store_b_done) = store_b_again \<and>
   state (jobs store_b_again ! 1) = Processing"
  by code_simp

subsection \<open>\<^verbatim>\<open>enqueue_job\<close>\<close>

text \<open>
  C6. When \<^verbatim>\<open>enqueue_job\<close> returns \<^verbatim>\<open>True\<close>, the table has one more row; every
  row that was there is at its place, with \<open>waiting_time\<close> one larger if it was
  \<open>pending\<close> or \<open>failed\<close> with \<open>locked_by\<close> null, and unchanged in every column
  otherwise; the new row is the last one, with the submitted \<open>id\<close> and \<open>command\<close>,
  \<open>state = pending\<close>, \<open>attempts = 0\<close>, \<open>waiting_time = 0\<close>, no lock, no
  \<open>next_retry_at\<close>, and both time stamps equal to \<open>now\<close>.
\<close>

theorem enqueue_ages_waiting_jobs:
  assumes "enqueue_job now jd s = (True, s')"
  shows "length (jobs s') = Suc (length (jobs s)) \<and>
         (\<forall>n < length (jobs s).
            jobs s' ! n =
              (if (state (jobs s ! n) = Pending \<or> state (jobs s ! n) = Failed)
                  \<and> locked_by (jobs s ! n) = None
               then (jobs s ! n)\<lparr>waiting_time := waiting_time (jobs s ! n) + 1\<rparr>
               else jobs s ! n)) \<and>
         job_id (last (jobs s')) = jd_id jd \<and>
         command (last (jobs s')) = jd_command jd \<and>
         state (last (jobs s')) = Pending \<and>
         attempts (last (jobs s')) = 0 \<and>
         waiting_time (last (jobs s')) = 0 \<and>
         locked_by (last (jobs s')) = None \<and>
         locked_at (last (jobs s')) = None \<and>
         next_retry_at (last (jobs s')) = None \<and>
         created_at (last (jobs s')) = now \<and>
         updated_at (last (jobs s')) = now \<and>
         config s' = config s"
proof -
  from enqueue_job_True [OF assms] obtain mr tmo bb prio where
    s': "s' = s\<lparr>jobs := age_waiting (jobs s) @ [new_job (jd_id jd) (jd_command jd) mr tmo bb prio now]\<rparr>"
    by blast
  have len: "length (age_waiting (jobs s)) = length (jobs s)"
    by (simp add: age_waiting_def length_update_where)
  have nth: "\<And>n. n < length (jobs s) \<Longrightarrow> jobs s' ! n =
              (if (state (jobs s ! n) = Pending \<or> state (jobs s ! n) = Failed)
                  \<and> locked_by (jobs s ! n) = None
               then (jobs s ! n)\<lparr>waiting_time := waiting_time (jobs s ! n) + 1\<rparr>
               else jobs s ! n)"
    by (simp add: s' nth_append len) (simp add: age_waiting_def nth_update_where)
  show ?thesis
    using nth by (simp add: s' len new_job_def)
qed

theorem enqueue_ages_waiting_jobs_witness:
  "enqueue_job 2000 request_b store_a = (True, store_ab) \<and>
   length (jobs store_ab) = Suc (length (jobs store_a)) \<and>
   job_id (last (jobs store_ab)) = jd_id request_b \<and>
   state (last (jobs store_ab)) = Pending \<and>
   attempts (last (jobs store_ab)) = 0 \<and>
   waiting_time (last (jobs store_ab)) = 0"
proof -
  have h: "enqueue_job 2000 request_b store_a = (True, store_ab)"
    by code_simp
  from enqueue_ages_waiting_jobs [OF h] h show ?thesis
    by blast
qed

text \<open>
  C7. When the table holds a job with the submitted \<open>id\<close>, \<^verbatim>\<open>enqueue_job\<close> returns
  \<^verbatim>\<open>False\<close> and the database after the call is the database before it: the aging
  statement that ran before the \<^verbatim>\<open>INSERT\<close> is rolled back.
\<close>

theorem enqueue_duplicate_id_unchanged:
  "get_job (jd_id jd) s = Some j \<Longrightarrow> enqueue_job now jd s = (False, s)"
proof -
  assume "get_job (jd_id jd) s = Some j"
  then have "jd_id jd \<in> set (map job_id (jobs s))"
    using select_by_id_None_iff [of "jd_id jd" "jobs s"] by (simp add: get_job_def)
  then have "jd_id jd \<in> set (map job_id (age_waiting (jobs s)))"
    by (simp only: job_id_age_waiting)
  then have "\<exists>e. enqueue_txn now jd s = Inl e"
    by (simp add: enqueue_txn_def insert_job_def new_job_def Let_def split: sum.splits)
  then show ?thesis
    by (auto simp: enqueue_job_def)
qed

theorem enqueue_duplicate_id_unchanged_witness:
  "get_job (jd_id request_a) store_ab = Some job_a_aged \<and>
   enqueue_job 5000 request_a store_ab = (False, store_ab)"
proof -
  have h: "get_job (jd_id request_a) store_ab = Some job_a_aged"
    by code_simp
  from enqueue_duplicate_id_unchanged [OF h] h show ?thesis
    by blast
qed

subsection \<open>\<^verbatim>\<open>complete_job\<close>, \<^verbatim>\<open>fail_job\<close> and \<^verbatim>\<open>retry_dlq_job\<close>\<close>

lemma get_job_update_same:
  assumes "get_job jid s = Some j" and "\<And>r. job_id (f r) = job_id r"
  shows "get_job jid (s\<lparr>jobs := update_where (\<lambda>r. job_id r = jid) f (jobs s)\<rparr>) = Some (f j)"
  using select_by_id_update_same [of jid "jobs s" j f "\<lambda>r. job_id r = jid"] assms
  by (simp add: get_job_def)

lemma get_job_update_other:
  assumes "i \<noteq> jid" and "\<And>r. job_id (f r) = job_id r"
  shows "get_job i (s\<lparr>jobs := update_where (\<lambda>r. job_id r = jid) f (jobs s)\<rparr>) = get_job i s"
  using select_by_id_update_other [of f "\<lambda>r. job_id r = jid" i "jobs s"] assms
  by (simp add: get_job_def)

lemma timedelta_seconds_ok:
  assumes "0 \<le> t" "t \<le> datetime_max" "0 \<le> t + n * 1000000" "t + n * 1000000 \<le> datetime_max"
  shows "timedelta_seconds n = Inr (n * 1000000)"
proof -
  from assms have "- 315537897600 < n" "n < 315537897600"
    by (simp_all add: datetime_max_def)
  then have "\<bar>n div 86400\<bar> \<le> 999999999"
    by arith
  then show ?thesis
    by (simp add: timedelta_seconds_def)
qed

lemma fail_job_dead:
  assumes "get_job jid s = Some j" and "max_retries j \<le> int (attempts j) + 1"
  shows "fail_job now now2 jid msg et s s2 =
           Inr (s2\<lparr>jobs := update_where (\<lambda>r. job_id r = jid)
                 (\<lambda>r. r\<lparr>state := Dead, attempts := attempts j + 1, error_message := Some msg,
                        execution_time := et, locked_by := None, locked_at := None,
                        next_retry_at := None, updated_at := now\<rparr>) (jobs s2)\<rparr>)"
  using assms by (simp add: fail_job_def get_job_def Let_def)

lemma fail_job_retry:
  assumes "get_job jid s = Some j" and "int (attempts j) + 1 < max_retries j"
    and "fail_job now now2 jid msg et s s2 = Inr s'"
  shows "s' = s2\<lparr>jobs := update_where (\<lambda>r. job_id r = jid)
                 (\<lambda>r. r\<lparr>state := Failed, attempts := attempts j + 1, error_message := Some msg,
                        execution_time := et, locked_by := None, locked_at := None,
                        next_retry_at := Some (now2 + backoff_base j ^ (attempts j + 1) * 1000000),
                        updated_at := now\<rparr>) (jobs s2)\<rparr>"
  using assms
  by (auto simp: fail_job_def get_job_def Let_def timedelta_seconds_def datetime_add_def
      split: if_splits sum.splits)

lemma fail_job_retry_ok:
  assumes "get_job jid s = Some j" and "int (attempts j) + 1 < max_retries j"
    and "0 \<le> now2" "now2 \<le> datetime_max"
    and "0 \<le> now2 + backoff_base j ^ (attempts j + 1) * 1000000"
    and "now2 + backoff_base j ^ (attempts j + 1) * 1000000 \<le> datetime_max"
  shows "fail_job now now2 jid msg et s s2 =
           Inr (s2\<lparr>jobs := update_where (\<lambda>r. job_id r = jid)
                 (\<lambda>r. r\<lparr>state := Failed, attempts := attempts j + 1, error_message := Some msg,
                        execution_time := et, locked_by := None, locked_at := None,
                        next_retry_at := Some (now2 + backoff_base j ^ (attempts j + 1) * 1000000),
                        updated_at := now\<rparr>) (jobs s2)\<rparr>)"
proof -
  have td: "timedelta_seconds (backoff_base j ^ (attempts j + 1)) =
              Inr (backoff_base j ^ (attempts j + 1) * 1000000)"
    using assms(3-6) by (rule timedelta_seconds_ok)
  have da: "datetime_add now2 (backoff_base j ^ (attempts j + 1) * 1000000) =
              Inr (now2 + backoff_base j ^ (attempts j + 1) * 1000000)"
    using assms(5,6) by (simp add: datetime_add_def)
  show ?thesis
    using assms(1,2) td da by (simp add: fail_job_def get_job_def Let_def)
qed

lemma fail_job_absent: "get_job jid s = None \<Longrightarrow> fail_job now now2 jid msg et s s2 = Inr s"
  by (simp add: fail_job_def get_job_def)

lemma complete_job_row:
  assumes "get_job jid s = Some j"
  shows "get_job jid (complete_job now jid out et s) =
           Some (j\<lparr>state := Completed, job_output := Some out, execution_time := et,
                   locked_by := None, locked_at := None, updated_at := now\<rparr>)"
  unfolding complete_job_def by (rule get_job_update_same [OF assms]) simp

lemma store_c_locked_eq: "store_c_locked = \<lparr>jobs = [job_c_locked], config = []\<rparr>"
  by code_simp

lemma store_d_locked_eq:
  "store_d_locked =
     \<lparr>jobs = [job_d_locked, new_job ''a'' ''echo a'' 3 20 2 1 1500], config = []\<rparr>"
  by code_simp

lemma store_d_dead_eq:
  "store_d_dead = \<lparr>jobs = [job_d_dead, new_job ''a'' ''echo a'' 3 20 2 1 1500], config = []\<rparr>"
  by code_simp

lemma store_z_dead_eq: "store_z_dead = \<lparr>jobs = [job_z_dead], config = []\<rparr>"
  by code_simp

lemma get_job_b_locked: "get_job ''b'' store_b_locked = Some job_b_locked"
  by code_simp

lemma get_job_d_locked: "get_job ''d'' store_d_locked = Some job_d_locked"
  by code_simp

lemma fail_b:
  "fail_job 5000000 5000001 ''b'' ''Exit code 1'' (Some 1) store_b_locked store_b_locked =
     Inr store_b_failed"
  by code_simp

lemma get_job_d_dead: "get_job ''d'' store_d_dead = Some job_d_dead"
  by code_simp

lemma state_job_d_dead: "state job_d_dead = Dead"
  by code_simp

text \<open>
  C3. Let \<open>j\<close> be the row that \<^verbatim>\<open>fail_job\<close> reads and \<open>k\<close> the row of that job that
  its \<^verbatim>\<open>UPDATE\<close> finds (\<open>k = j\<close> in an uninterrupted call). If
  \<open>attempts j + 1 \<ge> max_retries j\<close>, the call writes \<open>state = dead\<close>,
  \<open>attempts = attempts j + 1\<close>, the error message and the execution time, and clears
  \<open>next_retry_at\<close>, \<open>locked_by\<close> and \<open>locked_at\<close>. Otherwise, when the retry instant
  is a date of the years 1 to 9999, it writes \<open>state = failed\<close>, the same \<open>attempts\<close>,
  message and time, \<open>next_retry_at\<close> the second clock reading plus
  \<open>backoff_base j ^ (attempts j + 1)\<close> seconds, and clears the lock. Every other column
  of \<open>k\<close> keeps its value. Hence a recorded failure leaves the job \<open>dead\<close> if and only
  if the incremented \<open>attempts\<close> is at least \<open>max_retries\<close>, never with fewer; it is
  exactly \<open>max_retries\<close> when \<open>attempts\<close> was below \<open>max_retries\<close> before the call.
\<close>

theorem fail_job_transition:
  assumes "get_job jid s = Some j" and "get_job jid s2 = Some k"
  shows "(max_retries j \<le> int (attempts j) + 1 \<longrightarrow>
            (\<exists>s'. fail_job now now2 jid msg et s s2 = Inr s' \<and>
                  get_job jid s' =
                    Some (k\<lparr>state := Dead, attempts := attempts j + 1,
                            error_message := Some msg, execution_time := et,
                            locked_by := None, locked_at := None, next_retry_at := None,
                            updated_at := now\<rparr>))) \<and>
         (int (attempts j) + 1 < max_retries j \<and> 0 \<le> now2 \<and> now2 \<le> datetime_max \<and>
          0 \<le> now2 + backoff_base j ^ (attempts j + 1) * 1000000 \<and>
          now2 + backoff_base j ^ (attempts j + 1) * 1000000 \<le> datetime_max \<longrightarrow>
            (\<exists>s'. fail_job now now2 jid msg et s s2 = Inr s' \<and>
                  get_job jid s' =
                    Some (k\<lparr>state := Failed, attempts := attempts j + 1,
                            error_message := Some msg, execution_time := et,
                            locked_by := None, locked_at := None,
                            next_retry_at :=
                              Some (now2 + backoff_base j ^ (attempts j + 1) * 1000000),
                            updated_at := now\<rparr>))) \<and>
         (\<forall>s' j'. fail_job now now2 jid msg et s s2 = Inr s' \<and> get_job jid s' = Some j' \<longrightarrow>
            attempts j' = attempts j + 1 \<and>
            (state j' = Dead \<longleftrightarrow> max_retries j \<le> int (attempts j')) \<and>
            (state j' \<noteq> Dead \<longrightarrow> state j' = Failed \<and> next_retry_at j' \<noteq> None) \<and>
            (int (attempts j) < max_retries j \<longrightarrow>
               (state j' = Dead \<longleftrightarrow> int (attempts j') = max_retries j)))"
    (is "?dead \<and> ?failed \<and> ?iff")
proof -
  let ?d = "\<lambda>r. r\<lparr>state := Dead, attempts := attempts j + 1, error_message := Some msg,
                   execution_time := et, locked_by := None, locked_at := None,
                   next_retry_at := None, updated_at := now\<rparr>"
  let ?f = "\<lambda>r. r\<lparr>state := Failed, attempts := attempts j + 1, error_message := Some msg,
                   execution_time := et, locked_by := None, locked_at := None,
                   next_retry_at := Some (now2 + backoff_base j ^ (attempts j + 1) * 1000000),
                   updated_at := now\<rparr>"
  let ?upd = "\<lambda>g. s2\<lparr>jobs := update_where (\<lambda>r. job_id r = jid) g (jobs s2)\<rparr>"
  have row_d: "get_job jid (?upd ?d) = Some (?d k)"
    by (rule get_job_update_same [OF assms(2)]) simp
  have row_f: "get_job jid (?upd ?f) = Some (?f k)"
    by (rule get_job_update_same [OF assms(2)]) simp
  have dead: ?dead
    using fail_job_dead [OF assms(1), of now now2 msg et s2] row_d by simp
  have failed: ?failed
    using fail_job_retry_ok [OF assms(1), of now2 now msg et s2] row_f by simp
  have iff: ?iff
  proof (intro allI impI)
    fix s' j'
    assume h: "fail_job now now2 jid msg et s s2 = Inr s' \<and> get_job jid s' = Some j'"
    show "attempts j' = attempts j + 1 \<and>
          (state j' = Dead \<longleftrightarrow> max_retries j \<le> int (attempts j')) \<and>
          (state j' \<noteq> Dead \<longrightarrow> state j' = Failed \<and> next_retry_at j' \<noteq> None) \<and>
          (int (attempts j) < max_retries j \<longrightarrow>
             (state j' = Dead \<longleftrightarrow> int (attempts j') = max_retries j))"
    proof (cases "max_retries j \<le> int (attempts j) + 1")
      case True
      with fail_job_dead [OF assms(1), of now now2 msg et s2] h have "s' = ?upd ?d"
        by simp
      with row_d h have "j' = ?d k"
        by simp
      with True show ?thesis
        by auto
    next
      case False
      then have lt: "int (attempts j) + 1 < max_retries j"
        by simp
      from fail_job_retry [OF assms(1) lt, of now now2 msg et s2 s'] h have "s' = ?upd ?f"
        by simp
      with row_f h have "j' = ?f k"
        by simp
      with lt show ?thesis
        by auto
    qed
  qed
  from dead failed iff show ?thesis
    by (intro conjI)
qed

theorem fail_job_transition_witness:
  "get_job ''d'' store_d_locked = Some job_d_locked \<and>
   max_retries job_d_locked \<le> int (attempts job_d_locked) + 1 \<and>
   (\<exists>s'. fail_job 3000 3001 ''d'' ''Exit code 1'' (Some 1) store_d_locked store_d_locked = Inr s' \<and>
         get_job ''d'' s' = Some job_d_dead) \<and>
   get_job ''b'' store_b_locked = Some job_b_locked \<and>
   int (attempts job_b_locked) + 1 < max_retries job_b_locked \<and>
   (\<exists>s'. fail_job 5000000 5000001 ''b'' ''Exit code 1'' (Some 1) store_b_locked store_b_locked =
           Inr s' \<and>
         get_job ''b'' s' = Some job_b_failed) \<and>
   fail_job 5000000 5000001 ''b'' ''Exit code 1'' (Some 1) store_b_locked store_b_locked =
     Inr store_b_failed \<and>
   get_job ''b'' store_b_failed = Some job_b_failed \<and>
   state job_b_failed = Failed \<and> attempts job_b_failed = attempts job_b_locked + 1"
proof -
  have d1: "max_retries job_d_locked \<le> int (attempts job_d_locked) + 1"
    by code_simp
  have d2: "job_d_locked\<lparr>state := Dead, attempts := attempts job_d_locked + 1,
               error_message := Some ''Exit code 1'', execution_time := Some 1,
               locked_by := None, locked_at := None, next_retry_at := None,
               updated_at := 3000\<rparr> = job_d_dead"
    by code_simp
  have b1: "int (attempts job_b_locked) + 1 < max_retries job_b_locked"
    by code_simp
  have b2: "0 \<le> (5000001::int) \<and> 5000001 \<le> datetime_max \<and>
            0 \<le> 5000001 + backoff_base job_b_locked ^ (attempts job_b_locked + 1) * 1000000 \<and>
            5000001 + backoff_base job_b_locked ^ (attempts job_b_locked + 1) * 1000000
              \<le> datetime_max"
    by code_simp
  have b3: "job_b_locked\<lparr>state := Failed, attempts := attempts job_b_locked + 1,
               error_message := Some ''Exit code 1'', execution_time := Some 1,
               locked_by := None, locked_at := None,
               next_retry_at :=
                 Some (5000001 + backoff_base job_b_locked ^ (attempts job_b_locked + 1) * 1000000),
               updated_at := 5000000\<rparr> = job_b_failed"
    by code_simp
  have b4: "get_job ''b'' store_b_failed = Some job_b_failed"
    by code_simp
  have b5: "state job_b_failed = Failed \<and> attempts job_b_failed = attempts job_b_locked + 1"
    by code_simp
  from fail_job_transition [OF get_job_d_locked get_job_d_locked,
      of 3000 3001 "''Exit code 1''" "Some 1"] d1 d2
  have wd: "\<exists>s'. fail_job 3000 3001 ''d'' ''Exit code 1'' (Some 1) store_d_locked store_d_locked =
                   Inr s' \<and> get_job ''d'' s' = Some job_d_dead"
    by (simp only:, blast?)
  from fail_job_transition [OF get_job_b_locked get_job_b_locked,
      of 5000000 5000001 "''Exit code 1''" "Some 1"] b1 b2 b3
  have wb: "\<exists>s'. fail_job 5000000 5000001 ''b'' ''Exit code 1'' (Some 1) store_b_locked
                   store_b_locked = Inr s' \<and> get_job ''b'' s' = Some job_b_failed"
    by (simp only:, blast?)
  from wd wb get_job_d_locked get_job_b_locked d1 b1 fail_b b4 b5 show ?thesis
    by blast
qed

text \<open>Where the statement of the specification does not hold: a job submitted with \<^verbatim>\<open>--max-retries 0\<close> is \<open>dead\<close>
  after its first failure, with \<open>attempts = 1\<close> and not \<open>0\<close>.\<close>

theorem fail_job_dead_above_max_retries:
  "store_z_dead = \<lparr>jobs = [job_z_dead], config = []\<rparr> \<and>
   state job_z_dead = Dead \<and> attempts job_z_dead = 1 \<and> max_retries job_z_dead = 0 \<and>
   int (attempts job_z_dead) \<noteq> max_retries job_z_dead"
  by code_simp

text \<open>
  C4. Let \<open>j\<close> be the row that \<^verbatim>\<open>fail_job\<close> reads and \<open>k\<close> the row of that job that
  its \<^verbatim>\<open>UPDATE\<close> finds (\<open>k = j\<close> in an uninterrupted call). When the call records a
  failure and the incremented \<open>attempts\<close>, \<open>n\<close>, is below \<open>max_retries\<close>, the row becomes
  \<open>failed\<close> with \<open>attempts = n\<close>, \<open>updated_at\<close> the first clock reading and
  \<open>next_retry_at\<close> the second clock reading plus \<open>backoff_base ^ n\<close> seconds:
  \<open>next_retry_at - updated_at\<close> is \<open>backoff_base ^ n\<close> seconds plus the time that
  passed between the two readings.
\<close>

theorem fail_job_backoff:
  assumes "get_job jid s = Some j" and "get_job jid s2 = Some k"
    and "int (attempts j) + 1 < max_retries j"
    and "fail_job now now2 jid msg et s s2 = Inr s'"
  shows "\<exists>j'. get_job jid s' = Some j' \<and> state j' = Failed \<and>
              attempts j' = attempts j + 1 \<and> backoff_base j' = backoff_base k \<and>
              updated_at j' = now \<and>
              next_retry_at j' =
                Some (updated_at j' + backoff_base j ^ attempts j' * 1000000 + (now2 - now))"
proof -
  let ?f = "\<lambda>r. r\<lparr>state := Failed, attempts := attempts j + 1, error_message := Some msg,
                   execution_time := et, locked_by := None, locked_at := None,
                   next_retry_at := Some (now2 + backoff_base j ^ (attempts j + 1) * 1000000),
                   updated_at := now\<rparr>"
  have "get_job jid s' = Some (?f k)"
    unfolding fail_job_retry [OF assms(1,3,4)]
    by (rule get_job_update_same [OF assms(2)]) simp
  then show ?thesis
    by simp
qed

theorem fail_job_backoff_witness:
  "get_job ''b'' store_b_locked = Some job_b_locked \<and>
   int (attempts job_b_locked) + 1 < max_retries job_b_locked \<and>
   fail_job 5000000 5000001 ''b'' ''Exit code 1'' (Some 1) store_b_locked store_b_locked =
     Inr store_b_failed \<and>
   (\<exists>j'. get_job ''b'' store_b_failed = Some j' \<and> state j' = Failed \<and>
         attempts j' = attempts job_b_locked + 1 \<and>
         next_retry_at j' =
           Some (updated_at j' + backoff_base job_b_locked ^ attempts j' * 1000000 +
                 (5000001 - 5000000)))"
proof -
  have h: "int (attempts job_b_locked) + 1 < max_retries job_b_locked"
    by code_simp
  from fail_job_backoff [OF get_job_b_locked get_job_b_locked h fail_b]
    get_job_b_locked h fail_b
  show ?thesis
    by blast
qed

text \<open>Where the statement of the specification does not hold: one microsecond passes
  between the two clock readings.\<close>

theorem fail_job_backoff_not_exact:
  "fail_job 5000000 5000001 ''b'' ''Exit code 1'' (Some 1) store_b_locked store_b_locked =
     Inr store_b_failed \<and>
   get_job ''b'' store_b_failed = Some job_b_failed \<and>
   state job_b_failed = Failed \<and> attempts job_b_failed = 1 \<and>
   int (attempts job_b_failed) < max_retries job_b_failed \<and>
   the (next_retry_at job_b_failed) - updated_at job_b_failed
     \<noteq> backoff_base job_b_failed ^ attempts job_b_failed * 1000000"
  by code_simp



text \<open>
  C5. Let \<open>j\<close> be the row that \<^verbatim>\<open>retry_dlq_job\<close> reads and \<open>k\<close> the row of that job
  that its \<^verbatim>\<open>UPDATE\<close> finds (\<open>k = j\<close> in an uninterrupted call). When \<open>j\<close> is
  \<open>dead\<close>, the call returns \<^verbatim>\<open>True\<close> and the row becomes \<open>pending\<close> with
  \<open>attempts = 0\<close>, with \<open>error_message\<close>, \<open>next_retry_at\<close>, \<open>locked_by\<close> and
  \<open>locked_at\<close> null and \<open>updated_at = now\<close>; every other column of the row (among them
  \<open>waiting_time\<close>, \<open>output\<close> and \<open>execution_time\<close>) keeps its value, and the other
  jobs and the configuration are unchanged. For a job that is absent or not \<open>dead\<close> the
  call returns \<^verbatim>\<open>False\<close> and writes nothing.
\<close>

theorem retry_dlq_job_resets:
  "(\<forall>j k. get_job jid s = Some j \<and> state j = Dead \<and> get_job jid s2 = Some k \<longrightarrow>
      fst (retry_dlq_job now jid s s2) \<and>
      get_job jid (snd (retry_dlq_job now jid s s2)) =
        Some (k\<lparr>state := Pending, attempts := 0, error_message := None,
                next_retry_at := None, locked_by := None, locked_at := None,
                updated_at := now\<rparr>) \<and>
      (\<forall>i. i \<noteq> jid \<longrightarrow> get_job i (snd (retry_dlq_job now jid s s2)) = get_job i s2) \<and>
      config (snd (retry_dlq_job now jid s s2)) = config s2) \<and>
   (get_job jid s = None \<or> (\<exists>j. get_job jid s = Some j \<and> state j \<noteq> Dead) \<longrightarrow>
      retry_dlq_job now jid s s2 = (False, s))"
proof -
  let ?f = "\<lambda>r. r\<lparr>state := Pending, attempts := 0, error_message := None,
                   next_retry_at := None, locked_by := None, locked_at := None,
                   updated_at := now\<rparr>"
  let ?s' = "s2\<lparr>jobs := update_where (\<lambda>r. job_id r = jid) ?f (jobs s2)\<rparr>"
  have dead: "retry_dlq_job now jid s s2 = (True, ?s')"
    if "get_job jid s = Some j" "state j = Dead" for j
    using that by (simp add: retry_dlq_job_def get_job_def)
  have same: "get_job jid ?s' = Some (?f k)" if "get_job jid s2 = Some k" for k
    by (rule get_job_update_same [OF that]) simp
  have other: "get_job i ?s' = get_job i s2" if "i \<noteq> jid" for i
    by (rule get_job_update_other [OF that]) simp
  have no: "retry_dlq_job now jid s s2 = (False, s)"
    if "get_job jid s = None \<or> (\<exists>j. get_job jid s = Some j \<and> state j \<noteq> Dead)"
    using that by (auto simp: retry_dlq_job_def get_job_def)
  show ?thesis
    using dead same other no by simp
qed

theorem retry_dlq_job_resets_witness:
  "get_job ''d'' store_d_dead = Some job_d_dead \<and> state job_d_dead = Dead \<and>
   fst (retry_dlq_job 4000 ''d'' store_d_dead store_d_dead) \<and>
   get_job ''d'' (snd (retry_dlq_job 4000 ''d'' store_d_dead store_d_dead)) = Some job_d_retried \<and>
   get_job ''a'' (snd (retry_dlq_job 4000 ''d'' store_d_dead store_d_dead)) =
     get_job ''a'' store_d_dead \<and>
   (\<exists>j. get_job ''b'' store_b_locked = Some j \<and> state j \<noteq> Dead) \<and>
   retry_dlq_job 4000 ''b'' store_b_locked store_b_locked = (False, store_b_locked) \<and>
   get_job ''x'' store_b_locked = None \<and>
   retry_dlq_job 4000 ''x'' store_b_locked store_b_locked = (False, store_b_locked)"
proof -
  have r: "job_d_dead\<lparr>state := Pending, attempts := 0, error_message := None,
             next_retry_at := None, locked_by := None, locked_at := None,
             updated_at := 4000\<rparr> = job_d_retried"
    by code_simp
  have a: "''a'' \<noteq> ''d''"
    by simp
  have b: "state job_b_locked \<noteq> Dead"
    by code_simp
  have x: "get_job ''x'' store_b_locked = None"
    by code_simp
  from retry_dlq_job_resets [of "''d''" store_d_dead store_d_dead 4000]
    retry_dlq_job_resets [of "''b''" store_b_locked store_b_locked 4000]
    retry_dlq_job_resets [of "''x''" store_b_locked store_b_locked 4000]
    get_job_d_dead state_job_d_dead get_job_b_locked r a b x
  show ?thesis
    by (simp del: One_nat_def)
qed

text \<open>Where the statement of the specification does not hold: the retried job keeps the \<open>waiting_time\<close> and the
  \<open>execution_time\<close> it had, which a new job does not have.\<close>

theorem retry_dlq_job_not_fresh:
  "get_job ''d'' store_d_dead = Some job_d_dead \<and> state job_d_dead = Dead \<and>
   retry_dlq_job 4000 ''d'' store_d_dead store_d_dead =
     (True, \<lparr>jobs = [job_d_retried, new_job ''a'' ''echo a'' 3 20 2 1 1500], config = []\<rparr>) \<and>
   waiting_time job_d_retried = 1 \<and> execution_time job_d_retried = Some 1 \<and>
   waiting_time (new_job ''d'' ''exit 1'' 1 20 2 5 4000) = 0 \<and>
   execution_time (new_job ''d'' ''exit 1'' 1 20 2 5 4000) = None \<and>
   job_d_retried \<noteq> (new_job ''d'' ''exit 1'' 1 20 2 5 4000)\<lparr>created_at := 1000\<rparr>"
  by code_simp

text \<open>
  C10. \<^verbatim>\<open>fail_job\<close> for the acquired job that was submitted with
  \<^verbatim>\<open>--backoff-base 1000000000000\<close>: the retry instant lies after the year 9999, the
  date arithmetic raises \<^verbatim>\<open>OverflowError\<close>, nothing is written, and the job stays
  \<open>processing\<close>, locked, with \<open>attempts = 0\<close>.
\<close>

theorem fail_job_overflow:
  "get_job ''c'' store_c_locked = Some job_c_locked \<and>
   state job_c_locked = Processing \<and> attempts job_c_locked = 0 \<and>
   locked_by job_c_locked = Some ''w1'' \<and>
   fail_job 3000 3001 ''c'' ''Exit code 1'' (Some 1) store_c_locked store_c_locked =
     Inl OverflowError \<and>
   apply_op (Fail 3000 3001 ''c'' ''Exit code 1'' (Some 1)) store_c_locked = store_c_locked"
  by code_simp


subsection \<open>The retry budget over sequences of calls\<close>

lemma list_all_update_where:
  assumes "list_all P rows" and "\<And>r. r \<in> set rows \<Longrightarrow> P r \<Longrightarrow> p r \<Longrightarrow> P (f r)"
  shows "list_all P (update_where p f rows)"
  using assms by (auto simp: update_where_def list_all_iff)

lemma unique_ids_update_where:
  assumes "unique_ids s" and "\<And>r. job_id (f r) = job_id r"
  shows "unique_ids (s\<lparr>jobs := update_where p f (jobs s)\<rparr>)"
  using assms by (simp add: unique_ids_def job_id_update_where)

lemma store_ok_init: "store_ok \<lparr>jobs = [], config = cfg\<rparr>"
  by (simp add: store_ok_def unique_ids_def)

lemma enqueue_job_False: "enqueue_job now jd s = (False, s') \<Longrightarrow> s' = s"
  by (auto simp: enqueue_job_def split: sum.splits)

lemma store_ok_enqueue:
  assumes "store_ok s"
  shows "store_ok (snd (enqueue_job now jd s))"
proof (cases "enqueue_job now jd s")
  case (Pair b s')
  show ?thesis
  proof (cases b)
    case False
    with Pair enqueue_job_False show ?thesis
      using assms by auto
  next
    case True
    with Pair have e: "enqueue_job now jd s = (True, s')"
      by simp
    from enqueue_job_True [OF e] obtain mr tmo bb prio where
      new: "jd_id jd \<notin> set (map job_id (jobs s))"
      and s': "s' = s\<lparr>jobs := age_waiting (jobs s) @
                       [new_job (jd_id jd) (jd_command jd) mr tmo bb prio now]\<rparr>"
      by blast
    have u: "unique_ids s'"
      using assms new
      by (simp add: s' store_ok_def unique_ids_def job_id_age_waiting job_id_new_job
          del: set_map)
    have aged: "list_all budget_ok (age_waiting (jobs s))"
      unfolding age_waiting_def
      using assms by (intro list_all_update_where) (auto simp: store_ok_def budget_ok_def)
    have fresh: "budget_ok (new_job (jd_id jd) (jd_command jd) mr tmo bb prio now)"
      by (simp add: budget_ok_def new_job_def)
    from u aged fresh Pair show ?thesis
      by (simp add: store_ok_def s')
  qed
qed

lemma store_ok_acquire:
  assumes "store_ok s"
  shows "store_ok (snd (acquire_job w now s s))"
proof (cases "acquire_job w now s s")
  case (Pair res s')
  have u: "unique_ids s"
    using assms by (simp add: store_ok_def)
  have u': "unique_ids s'"
    using acquire_job_unique_ids [OF u Pair] .
  show ?thesis
  proof (cases res)
    case None
    with acquire_job_None [OF u, of w now s'] Pair assms show ?thesis
      by simp
  next
    case (Some j)
    let ?f = "\<lambda>x. x\<lparr>state := Processing, locked_by := Some w, locked_at := Some now,
                     updated_at := now\<rparr>"
    from acquire_job_Some [OF u, of w now j s'] Pair Some
    obtain r where r: "r \<in> set (jobs s)" "eligible now r"
      and s': "s' = s\<lparr>jobs := update_where (\<lambda>x. job_id x = job_id r \<and> locked_by x = None) ?f
                               (jobs s)\<rparr>"
      by blast
    have d: "distinct (map job_id (jobs s))"
      using u by (simp add: unique_ids_def)
    have live: "state r = Pending \<or> state r = Failed"
      using r(2) by (auto simp: eligible_def)
    have "list_all budget_ok (update_where (\<lambda>x. job_id x = job_id r \<and> locked_by x = None) ?f
            (jobs s))"
    proof (rule list_all_update_where)
      show "list_all budget_ok (jobs s)"
        using assms by (simp add: store_ok_def)
    next
      fix x
      assume x: "x \<in> set (jobs s)" "budget_ok x" "job_id x = job_id r \<and> locked_by x = None"
      with unique_row [OF d r(1)] have "x = r"
        by blast
      with x(2) live show "budget_ok (?f x)"
        by (auto simp: budget_ok_def)
    qed
    with u' Pair show ?thesis
      by (simp add: store_ok_def s')
  qed
qed

lemma store_ok_complete:
  assumes "store_ok s"
  shows "store_ok (complete_job now jid out et s)"
proof -
  let ?f = "\<lambda>r. r\<lparr>state := Completed, job_output := Some out, execution_time := et,
                   locked_by := None, locked_at := None, updated_at := now\<rparr>"
  have "unique_ids (s\<lparr>jobs := update_where (\<lambda>r. job_id r = jid) ?f (jobs s)\<rparr>)"
    using assms by (intro unique_ids_update_where) (simp_all add: store_ok_def)
  moreover have "list_all budget_ok (update_where (\<lambda>r. job_id r = jid) ?f (jobs s))"
    using assms by (intro list_all_update_where) (auto simp: store_ok_def budget_ok_def)
  ultimately show ?thesis
    by (simp add: store_ok_def complete_job_def)
qed

lemma store_ok_fail:
  assumes "store_ok s" and "fail_allowed (Fail now now2 jid msg et) s"
  shows "store_ok (apply_op (Fail now now2 jid msg et) s)"
proof (cases "get_job jid s")
  case None
  then show ?thesis
    using assms(1) by (simp add: fail_job_absent)
next
  case (Some j)
  have u: "unique_ids s" and ok: "list_all budget_ok (jobs s)"
    using assms(1) by (simp_all add: store_ok_def)
  have d: "distinct (map job_id (jobs s))"
    using u by (simp add: unique_ids_def)
  have j: "j \<in> set (jobs s)" "job_id j = jid"
    using Some select_by_id_Some_mem [of jid "jobs s" j] by (simp_all add: get_job_def)
  have live: "state j \<noteq> Completed" "state j \<noteq> Dead"
    using assms(2) Some by (simp_all add: fail_allowed_def)
  have bj: "budget_ok j"
    using ok j(1) by (simp add: list_all_iff)
  have below: "1 \<le> max_retries j \<Longrightarrow> int (attempts j) < max_retries j"
    using bj live by (simp add: budget_ok_def)
  have step: "store_ok (s\<lparr>jobs := update_where (\<lambda>r. job_id r = jid) f (jobs s)\<rparr>)"
    if id: "\<And>r. job_id (f r) = job_id r" and b: "budget_ok (f j)" for f
  proof -
    have "list_all budget_ok (update_where (\<lambda>r. job_id r = jid) f (jobs s))"
    proof (rule list_all_update_where [OF ok])
      fix x
      assume "x \<in> set (jobs s)" "job_id x = jid"
      with unique_row [OF d j(1)] j(2) have "x = j"
        by blast
      with b show "budget_ok (f x)"
        by simp
    qed
    with unique_ids_update_where [OF u id] show ?thesis
      by (simp add: store_ok_def)
  qed
  show ?thesis
  proof (cases "max_retries j \<le> int (attempts j) + 1")
    case True
    let ?d = "\<lambda>r. r\<lparr>state := Dead, attempts := attempts j + 1, error_message := Some msg,
                     execution_time := et, locked_by := None, locked_at := None,
                     next_retry_at := None, updated_at := now\<rparr>"
    have "budget_ok (?d j)"
      using below by (auto simp: budget_ok_def)
    then have "store_ok (s\<lparr>jobs := update_where (\<lambda>r. job_id r = jid) ?d (jobs s)\<rparr>)"
      by (intro step) simp_all
    then show ?thesis
      by (simp add: fail_job_dead [OF Some True])
  next
    case False
    then have lt: "int (attempts j) + 1 < max_retries j"
      by simp
    let ?f = "\<lambda>r. r\<lparr>state := Failed, attempts := attempts j + 1, error_message := Some msg,
                     execution_time := et, locked_by := None, locked_at := None,
                     next_retry_at := Some (now2 + backoff_base j ^ (attempts j + 1) * 1000000),
                     updated_at := now\<rparr>"
    have "budget_ok (?f j)"
      using lt by (auto simp: budget_ok_def)
    then have ok': "store_ok (s\<lparr>jobs := update_where (\<lambda>r. job_id r = jid) ?f (jobs s)\<rparr>)"
      by (intro step) simp_all
    show ?thesis
    proof (cases "fail_job now now2 jid msg et s s")
      case (Inl e)
      then show ?thesis
        using assms(1) by simp
    next
      case (Inr s')
      with fail_job_retry [OF Some lt Inr] ok' show ?thesis
        by simp
    qed
  qed
qed

lemma store_ok_retry_dlq:
  assumes "store_ok s"
  shows "store_ok (snd (retry_dlq_job now jid s s))"
proof -
  let ?f = "\<lambda>r. r\<lparr>state := Pending, attempts := 0, error_message := None,
                   next_retry_at := None, locked_by := None, locked_at := None,
                   updated_at := now\<rparr>"
  have "unique_ids (s\<lparr>jobs := update_where (\<lambda>r. job_id r = jid) ?f (jobs s)\<rparr>)"
    using assms by (intro unique_ids_update_where) (simp_all add: store_ok_def)
  moreover have "list_all budget_ok (update_where (\<lambda>r. job_id r = jid) ?f (jobs s))"
    using assms by (intro list_all_update_where) (auto simp: store_ok_def budget_ok_def)
  ultimately have "store_ok (s\<lparr>jobs := update_where (\<lambda>r. job_id r = jid) ?f (jobs s)\<rparr>)"
    by (simp add: store_ok_def)
  with assms show ?thesis
    by (simp add: retry_dlq_job_def split: option.splits)
qed

lemma store_ok_delete:
  assumes "store_ok s"
  shows "store_ok (snd (delete_job jid s))"
  using assms
  by (auto simp: store_ok_def unique_ids_def delete_job_def distinct_map_filter list_all_iff)

lemma store_ok_clear: "store_ok (clear_all_jobs s)"
  by (simp add: store_ok_def unique_ids_def clear_all_jobs_def)

lemma store_ok_apply_op:
  assumes "store_ok s" and "fail_allowed c s"
  shows "store_ok (apply_op c s)"
proof (cases c)
  case (Fail now now2 jid msg et)
  with store_ok_fail assms show ?thesis
    by blast
qed (simp_all add: assms(1) store_ok_enqueue store_ok_acquire store_ok_complete
      store_ok_retry_dlq store_ok_delete store_ok_clear)

lemma store_ok_run:
  "store_ok s \<Longrightarrow> fails_only_live ops s \<Longrightarrow> store_ok (run ops s)"
proof (induction ops arbitrary: s)
  case Nil
  then show ?case
    by simp
next
  case (Cons c cs)
  from Cons.prems have "store_ok (apply_op c s)"
    by (simp add: store_ok_apply_op)
  with Cons.IH [of "apply_op c s"] Cons.prems(2) show ?case
    by simp
qed

text \<open>
  C8. In every state reached from an empty table of jobs by a sequence of calls of
  \<^verbatim>\<open>enqueue_job\<close>, \<^verbatim>\<open>acquire_job\<close>, \<^verbatim>\<open>complete_job\<close>, \<^verbatim>\<open>fail_job\<close>,
  \<^verbatim>\<open>retry_dlq_job\<close>, \<^verbatim>\<open>delete_job\<close> and \<^verbatim>\<open>clear_all_jobs\<close> that do not overlap
  and in which \<^verbatim>\<open>fail_job\<close> is never called for a job that is \<open>completed\<close> or
  \<open>dead\<close>, every job with \<open>max_retries \<ge> 1\<close> has \<open>attempts \<le> max_retries\<close>. And
  a \<^verbatim>\<open>fail_job\<close> that brings \<open>attempts\<close> to \<open>max_retries\<close> records the failure and
  leaves the job \<open>dead\<close>.
\<close>

theorem attempts_within_max_retries:
  "(fails_only_live ops \<lparr>jobs = [], config = cfg\<rparr> \<longrightarrow>
      (\<forall>j \<in> set (jobs (run ops \<lparr>jobs = [], config = cfg\<rparr>)).
         1 \<le> max_retries j \<longrightarrow> int (attempts j) \<le> max_retries j)) \<and>
   (get_job jid s = Some j \<and> get_job jid s2 = Some k \<and>
    int (attempts j) + 1 = max_retries j \<longrightarrow>
      (\<exists>s' j'. fail_job now now2 jid msg et s s2 = Inr s' \<and> get_job jid s' = Some j' \<and>
               int (attempts j') = max_retries j \<and> state j' = Dead))"
proof (intro conjI impI)
  assume "fails_only_live ops \<lparr>jobs = [], config = cfg\<rparr>"
  with store_ok_run [OF store_ok_init] have "store_ok (run ops \<lparr>jobs = [], config = cfg\<rparr>)"
    by blast
  then show "\<forall>j \<in> set (jobs (run ops \<lparr>jobs = [], config = cfg\<rparr>)).
               1 \<le> max_retries j \<longrightarrow> int (attempts j) \<le> max_retries j"
    by (auto simp: store_ok_def list_all_iff budget_ok_def)
next
  assume h: "get_job jid s = Some j \<and> get_job jid s2 = Some k \<and>
             int (attempts j) + 1 = max_retries j"
  let ?d = "\<lambda>r. r\<lparr>state := Dead, attempts := attempts j + 1, error_message := Some msg,
                   execution_time := et, locked_by := None, locked_at := None,
                   next_retry_at := None, updated_at := now\<rparr>"
  from h have le: "max_retries j \<le> int (attempts j) + 1"
    by simp
  have "get_job jid (s2\<lparr>jobs := update_where (\<lambda>r. job_id r = jid) ?d (jobs s2)\<rparr>) = Some (?d k)"
    using h by (intro get_job_update_same) simp_all
  with fail_job_dead [of jid s j now now2 msg et s2] h le
  show "\<exists>s' j'. fail_job now now2 jid msg et s s2 = Inr s' \<and> get_job jid s' = Some j' \<and>
                int (attempts j') = max_retries j \<and> state j' = Dead"
    by simp
qed

theorem attempts_within_max_retries_witness:
  "fails_only_live [Enqueue 1000 request_d, Enqueue 1500 request_a, Acquire ''w1'' 2000,
                    Fail 3000 3001 ''d'' ''Exit code 1'' (Some 1)] empty_store \<and>
   job_d_dead \<in> set (jobs store_d_dead) \<and>
   1 \<le> max_retries job_d_dead \<and>
   int (attempts job_d_dead) \<le> max_retries job_d_dead \<and>
   get_job ''d'' store_d_locked = Some job_d_locked \<and>
   int (attempts job_d_locked) + 1 = max_retries job_d_locked \<and>
   (\<exists>s' j'. fail_job 3000 3001 ''d'' ''Exit code 1'' (Some 1) store_d_locked store_d_locked =
              Inr s' \<and>
            get_job ''d'' s' = Some j' \<and> int (attempts j') = max_retries job_d_locked \<and>
            state j' = Dead)"
proof -
  let ?ops = "[Enqueue 1000 request_d, Enqueue 1500 request_a, Acquire ''w1'' 2000,
               Fail 3000 3001 ''d'' ''Exit code 1'' (Some 1)]"
  have live: "fails_only_live ?ops \<lparr>jobs = [], config = []\<rparr>"
    by code_simp
  have run_eq: "run ?ops \<lparr>jobs = [], config = []\<rparr> = store_d_dead"
    by (simp only: store_d_dead_def empty_store_def)
  have mem: "job_d_dead \<in> set (jobs store_d_dead)"
    by code_simp
  have pos: "1 \<le> max_retries job_d_dead"
    by code_simp
  have lastd: "int (attempts job_d_locked) + 1 = max_retries job_d_locked"
    by code_simp
  note inst = attempts_within_max_retries [where ops = ?ops and cfg = "[]" and jid = "''d''"
      and s = store_d_locked and j = job_d_locked and ?s2.0 = store_d_locked
      and k = job_d_locked and now = 3000 and ?now2.0 = 3001 and msg = "''Exit code 1''"
      and et = "Some 1"]
  from inst live run_eq mem pos
  have bound: "int (attempts job_d_dead) \<le> max_retries job_d_dead"
    by (simp only:, blast?)
  from inst get_job_d_locked lastd
  have dead: "\<exists>s' j'. fail_job 3000 3001 ''d'' ''Exit code 1'' (Some 1) store_d_locked
                        store_d_locked = Inr s' \<and>
                      get_job ''d'' s' = Some j' \<and>
                      int (attempts j') = max_retries job_d_locked \<and> state j' = Dead"
    by blast
  from live bound dead mem pos get_job_d_locked lastd show ?thesis
    by (simp only: empty_store_def, blast?)
qed

text \<open>
  Where the statement of the specification does not hold: a job submitted with \<^verbatim>\<open>--max-retries 0\<close> has
  \<open>attempts = 1\<close> after its failure; \<^verbatim>\<open>fail_job\<close> called for a job that is \<open>dead\<close>
  increments \<open>attempts\<close> beyond \<open>max_retries\<close>; and so does the failure of a job
  that a second worker was given through an \<^verbatim>\<open>acquire_job\<close> whose \<^verbatim>\<open>UPDATE\<close> ran
  after the first worker had failed the job for the last time.
\<close>

theorem attempts_exceed_max_retries:
  "fails_only_live [Enqueue 1000 request_z, Acquire ''w1'' 2000,
                    Fail 3000 3001 ''z'' ''Exit code 1'' (Some 1)] empty_store \<and>
   max_retries (the (get_job ''z'' store_z_dead)) < int (attempts (the (get_job ''z'' store_z_dead))) \<and>
   state (the (get_job ''d'' store_d_dead)) = Dead \<and>
   max_retries (the (get_job ''d''
       (apply_op (Fail 4000 4001 ''d'' ''Exit code 1'' (Some 1)) store_d_dead)))
     < int (attempts (the (get_job ''d''
       (apply_op (Fail 4000 4001 ''d'' ''Exit code 1'' (Some 1)) store_d_dead)))) \<and>
   1 \<le> max_retries (the (get_job ''d'' store_d_dead)) \<and>
   state (the (get_job ''d'' (snd (acquire_job ''w2'' 1900 store_d_pending store_d_dead)))) =
     Processing \<and>
   max_retries (the (get_job ''d''
       (apply_op (Fail 5000 5001 ''d'' ''Exit code 1'' (Some 1))
          (snd (acquire_job ''w2'' 1900 store_d_pending store_d_dead)))))
     < int (attempts (the (get_job ''d''
       (apply_op (Fail 5000 5001 ''d'' ''Exit code 1'' (Some 1))
          (snd (acquire_job ''w2'' 1900 store_d_pending store_d_dead))))))"
  by code_simp

end
